theory Spec2Isabelle
  imports Main
begin

unbundle bit_operations_syntax

section \<open>Data model\<close>

text \<open>
  A unit sequence (the contents of a \<^verbatim>\<open>better_string\<close> or of a
  \<^verbatim>\<open>better_string_view\<close>) is the list of its code units, each unit the unsigned value
  of its storage (0..255 for \<^verbatim>\<open>char\<close>, 0..65535 for \<^verbatim>\<open>char16_t\<close>, below
  \<open>2 ^ 32\<close> for \<^verbatim>\<open>char32_t\<close>). A pointer into the sequence is its offset from
  \<^verbatim>\<open>data()\<close>, an \<open>int\<close> because the code forms pointers in front of the sequence.
  A read outside the sequence is undefined behaviour in the source; the model makes it the error
  \<open>OutOfBounds\<close>. \<^verbatim>\<open>size_t\<close> is a natural number below \<open>2 ^ 64\<close>.
\<close>

type_synonym cunit = nat
type_synonym buffer = "cunit list"

datatype Encoding = Char8 | Char16 | Char32 | UTF8 | UTF16 | UTF32

datatype Errors = Strict | Ignore | Replace

datatype error =
    invalid_argument string
  | out_of_range string
  | logic_error string
  | OutOfBounds

definition npos :: nat where
  "npos = 2 ^ 64 - 1"

definition rd :: "buffer \<Rightarrow> int \<Rightarrow> error + cunit" where
  "rd s i = (if 0 \<le> i \<and> i < int (length s) then Inr (s ! nat i) else Inl OutOfBounds)"

definition bindE :: "error + 'a \<Rightarrow> ('a \<Rightarrow> error + 'b) \<Rightarrow> error + 'b" where
  "bindE m f = (case m of Inl e \<Rightarrow> Inl e | Inr v \<Rightarrow> f v)"

text \<open>\<^verbatim>\<open>better_string(ptr, end)\<close>: the units from offset \<open>a\<close> up to offset \<open>b\<close>.\<close>

definition slice :: "buffer \<Rightarrow> int \<Rightarrow> int \<Rightarrow> buffer" where
  "slice s a b = take (nat (b - a)) (drop (nat a) s)"

text \<open>
  Reading a unit into an \<^verbatim>\<open>int32_t\<close>: \<^verbatim>\<open>char\<close> is signed on the targets the
  repository builds for, so an 8-bit unit above 127 becomes negative; \<^verbatim>\<open>char16_t\<close> is
  unsigned; a \<^verbatim>\<open>char32_t\<close> from \<open>2 ^ 31\<close> on wraps.
\<close>

definition char_width :: "Encoding \<Rightarrow> nat" where
  "char_width E = (case E of Char8 \<Rightarrow> 8 | UTF8 \<Rightarrow> 8 | Char16 \<Rightarrow> 16 | UTF16 \<Rightarrow> 16
                   | Char32 \<Rightarrow> 32 | UTF32 \<Rightarrow> 32)"

definition to_int32 :: "Encoding \<Rightarrow> cunit \<Rightarrow> int" where
  "to_int32 E u =
     (if char_width E = 8 then (if u < 128 then int u else int u - 256)
      else if char_width E = 16 then int u
      else (if u < 2 ^ 31 then int u else int u - 2 ^ 32))"

section \<open>Codepoint iterators\<close>

subsection \<open>UTF8Iterator\<close>

definition ascii :: "nat \<Rightarrow> bool" where "ascii ch = (ch < 0x80)"
definition head :: "nat \<Rightarrow> bool" where "head ch = (ch > 0xC0)"
definition head2 :: "nat \<Rightarrow> bool" where "head2 ch = (ch < 0xE0)"
definition head3 :: "nat \<Rightarrow> bool" where "head3 ch = (ch < 0xF0)"
definition head4 :: "nat \<Rightarrow> bool" where "head4 ch = (ch < 0xF8)"
definition tail :: "nat \<Rightarrow> bool" where "tail ch = (ch AND 0xC0 = 0x80)"

text \<open>\<^verbatim>\<open>operator ++\<close>: the pointer stays where it is when a head byte is not followed by
  the tail bytes it announces.\<close>

definition utf8_next :: "buffer \<Rightarrow> int \<Rightarrow> error + int" where
  "utf8_next s p =
     bindE (rd s p) (\<lambda>ch.
       if \<not> head ch then Inr (p + 1)
       else if head2 ch then
         bindE (rd s (p + 1)) (\<lambda>c1. Inr (if tail c1 then p + 2 else p))
       else if head3 ch then
         bindE (rd s (p + 1)) (\<lambda>c1.
           if \<not> tail c1 then Inr p
           else bindE (rd s (p + 2)) (\<lambda>c2. Inr (if tail c2 then p + 3 else p)))
       else if head4 ch then
         bindE (rd s (p + 1)) (\<lambda>c1.
           if \<not> tail c1 then Inr p
           else bindE (rd s (p + 2)) (\<lambda>c2.
             if \<not> tail c2 then Inr p
             else bindE (rd s (p + 3)) (\<lambda>c3. Inr (if tail c3 then p + 4 else p))))
       else Inr (p + 1))"

text \<open>\<^verbatim>\<open>operator --\<close>.\<close>

definition utf8_prev :: "buffer \<Rightarrow> int \<Rightarrow> error + int" where
  "utf8_prev s p =
     bindE (rd s (p - 1)) (\<lambda>b1.
       if tail b1 then
         bindE (rd s (p - 2)) (\<lambda>b2.
           if head2 b2 \<and> head b2 then Inr (p - 2)
           else if tail b2 then
             bindE (rd s (p - 3)) (\<lambda>b3.
               if head3 b3 \<and> \<not> head2 b3 then Inr (p - 3)
               else if tail b3 then
                 (if head4 b3 \<and> \<not> head3 b3 then Inr (p - 4) else Inr (p - 1))
               else Inr (p - 1))
           else Inr (p - 1))
       else Inr (p - 1))"

text \<open>\<^verbatim>\<open>operator *\<close>.\<close>

definition utf8_deref :: "buffer \<Rightarrow> int \<Rightarrow> error + int" where
  "utf8_deref s p =
     bindE (rd s p) (\<lambda>ch.
       if ascii ch then Inr (int ch)
       else if \<not> head ch then Inr (- int ch)
       else if head2 ch then
         bindE (rd s (p + 1)) (\<lambda>c1.
           if \<not> tail c1 then Inr (- int ch)
           else let codepoint = int (push_bit 6 (ch AND 0x1F) OR (c1 AND 0x3F))
                in if codepoint < 0x80 then Inr (- 1) else Inr codepoint)
       else if head3 ch then
         bindE (rd s (p + 1)) (\<lambda>c1.
         bindE (rd s (p + 2)) (\<lambda>c2.
           if \<not> tail c1 \<and> \<not> tail c2 then Inr (- int ch)
           else let codepoint = int (push_bit 12 (ch AND 0x0F) OR push_bit 6 (c1 AND 0x3F)
                                     OR (c2 AND 0x3F))
                in if codepoint < 0x800 \<or> codepoint AND 0xF800 = 0xD800 then Inr (- 1)
                   else Inr codepoint))
       else if head4 ch then
         bindE (rd s (p + 1)) (\<lambda>c1.
         bindE (rd s (p + 2)) (\<lambda>c2.
         bindE (rd s (p + 3)) (\<lambda>c3.
           if \<not> tail c1 \<and> \<not> tail c2 \<and> \<not> tail c3 then Inr (- int ch)
           else let codepoint = int (push_bit 18 (ch AND 0x07) OR push_bit 12 (c1 AND 0x3F)
                                     OR push_bit 6 (c2 AND 0x3F) OR (c3 AND 0x3F))
                in if codepoint < 0x10000 \<or> codepoint > 0x10FFFF then Inr (- 1)
                   else Inr codepoint)))
       else Inr (- int ch))"

subsection \<open>UTF16Iterator\<close>

definition is_surrogate_first :: "nat \<Rightarrow> bool" where
  "is_surrogate_first ch = (ch AND 0xFC00 = 0xD800)"

definition is_surrogate_last :: "nat \<Rightarrow> bool" where
  "is_surrogate_last ch = (ch AND 0xFC00 = 0xDC00)"

definition utf16_next :: "buffer \<Rightarrow> int \<Rightarrow> error + int" where
  "utf16_next s p =
     bindE (rd s p) (\<lambda>c0.
       if is_surrogate_first c0 then
         bindE (rd s (p + 1)) (\<lambda>c1. Inr (if is_surrogate_last c1 then p + 2 else p + 1))
       else Inr (p + 1))"

definition utf16_prev :: "buffer \<Rightarrow> int \<Rightarrow> error + int" where
  "utf16_prev s p =
     bindE (rd s (p - 1)) (\<lambda>c0.
       if is_surrogate_last c0 then
         bindE (rd s (p - 2)) (\<lambda>c1. Inr (if is_surrogate_first c1 then p - 2 else p - 1))
       else Inr (p - 1))"

definition utf16_deref :: "buffer \<Rightarrow> int \<Rightarrow> error + int" where
  "utf16_deref s p =
     bindE (rd s p) (\<lambda>c0.
       if is_surrogate_first c0 then
         bindE (rd s (p + 1)) (\<lambda>c1.
           if is_surrogate_last c1
           then Inr (int (push_bit 10 (c0 AND 0x3FF) + (c1 AND 0x3FF) + 0x10000))
           else Inr (int c0))
       else Inr (int c0))"

subsection \<open>UTF32Iterator\<close>

text \<open>
  \<^verbatim>\<open>(*ptr & 0xF800 != 0xD8) && (*ptr < 0x110000) ? *ptr : -1\<close>: the comparison
  \<^verbatim>\<open>0xF800 != 0xD8\<close> binds tighter than \<^verbatim>\<open>&\<close> and is 1, so the first
  conjunct tests the lowest bit of the unit.
\<close>

definition utf32_deref :: "buffer \<Rightarrow> int \<Rightarrow> error + int" where
  "utf32_deref s p =
     bindE (rd s p) (\<lambda>u.
       if u AND (if (0xF800 :: nat) \<noteq> 0xD8 then 1 else 0) \<noteq> 0 \<and> u < 0x110000
       then Inr (int u) else Inr (- 1))"

subsection \<open>encoding_traits: the iterator of each encoding\<close>

definition deref :: "Encoding \<Rightarrow> buffer \<Rightarrow> int \<Rightarrow> error + int" where
  "deref E s p =
     (case E of
        UTF8 \<Rightarrow> utf8_deref s p
      | UTF16 \<Rightarrow> utf16_deref s p
      | UTF32 \<Rightarrow> utf32_deref s p
      | _ \<Rightarrow> bindE (rd s p) (\<lambda>u. Inr (to_int32 E u)))"

definition next_pos :: "Encoding \<Rightarrow> buffer \<Rightarrow> int \<Rightarrow> error + int" where
  "next_pos E s p =
     (case E of UTF8 \<Rightarrow> utf8_next s p | UTF16 \<Rightarrow> utf16_next s p | _ \<Rightarrow> Inr (p + 1))"

definition prev_pos :: "Encoding \<Rightarrow> buffer \<Rightarrow> int \<Rightarrow> error + int" where
  "prev_pos E s p =
     (case E of UTF8 \<Rightarrow> utf8_prev s p | UTF16 \<Rightarrow> utf16_prev s p | _ \<Rightarrow> Inr (p - 1))"

text \<open>\<^verbatim>\<open>operator !=\<close> of two iterators: \<^verbatim>\<open><\<close> for UTF-8 and UTF-16.\<close>

definition iter_ne :: "Encoding \<Rightarrow> int \<Rightarrow> int \<Rightarrow> bool" where
  "iter_ne E l r = (case E of UTF8 \<Rightarrow> l < r | UTF16 \<Rightarrow> l < r | _ \<Rightarrow> l \<noteq> r)"


section \<open>Encoders\<close>

text \<open>
  \<^verbatim>\<open>encoding_traits<E>::append(string, cp)\<close> returns the extended string and the
  success flag. \<open>w\<close> is the width in bits of the units of the string written to:
  \<^verbatim>\<open>push_back\<close> converts the pushed value to that unit type. In the encoders the test
  \<^verbatim>\<open>cp & 0xF800 == 0xD8\<close> is \<^verbatim>\<open>cp & (0xF800 == 0xD8)\<close>, that is
  \<^verbatim>\<open>cp & 0\<close>, and \<^verbatim>\<open>cp & 0xF800 != 0xD8\<close> is \<^verbatim>\<open>cp & 1\<close>.
\<close>

definition units :: "string \<Rightarrow> buffer" where
  "units cs = map of_char cs"

definition u32 :: "int \<Rightarrow> nat" where
  "u32 x = nat (x mod 2 ^ 32)"

definition replacement :: "Encoding \<Rightarrow> int" where
  "replacement E = (case E of Char8 \<Rightarrow> 63 | _ \<Rightarrow> 0xFFFD)"

text \<open>\<^verbatim>\<open>push_back(char(x))\<close>: the value is cut to a (signed) \<^verbatim>\<open>char\<close> and then
  converted to the unit type of the string.\<close>

definition push_char :: "nat \<Rightarrow> buffer \<Rightarrow> nat \<Rightarrow> buffer" where
  "push_char w str x =
     (let b = x mod 256 in str @ [if b < 128 then b else (2 ^ w - 256 + b) mod 2 ^ w])"

definition push_unit :: "nat \<Rightarrow> buffer \<Rightarrow> nat \<Rightarrow> buffer" where
  "push_unit w str x = str @ [x mod 2 ^ w]"

definition utf8_append :: "nat \<Rightarrow> buffer \<Rightarrow> nat \<Rightarrow> buffer \<times> bool" where
  "utf8_append w str cp =
     (if cp < 0x80 then (push_char w str cp, True)
      else if cp < 0x800 then
        (push_char w (push_char w str (0xC0 OR drop_bit 6 cp)) (0x80 OR (cp AND 0x3F)), True)
      else if cp < 0x10000 then
        (if cp AND (if (0xF800 :: nat) = 0xD8 then 1 else 0) \<noteq> 0 then (str, False)
         else (push_char w (push_char w (push_char w str
                 (0xE0 OR drop_bit 12 cp))
                 (0x80 OR (drop_bit 6 cp AND 0x3F)))
                 (0x80 OR (cp AND 0x3F)), True))
      else if cp < 0x110000 then
        (push_char w (push_char w (push_char w (push_char w str
           (0xF0 OR drop_bit 18 cp))
           (0x80 OR (drop_bit 12 cp AND 0x3F)))
           (0x80 OR (drop_bit 6 cp AND 0x3F)))
           (0x80 OR (cp AND 0x3F)), True)
      else (str, False))"

definition utf16_append :: "nat \<Rightarrow> buffer \<Rightarrow> nat \<Rightarrow> buffer \<times> bool" where
  "utf16_append w str cp =
     (if cp < 0x10000 then
        (if cp AND (if (0xF800 :: nat) = 0xD8 then 1 else 0) \<noteq> 0 then (str, False)
         else (push_unit w str (cp mod 2 ^ 16), True))
      else if cp < 0x110000 then
        (let cp' = cp - 10000
         in (push_unit w (push_unit w str
               ((0xD800 OR drop_bit 10 cp') mod 2 ^ 16))
               ((0xDC00 OR (cp' AND 0x3FF)) mod 2 ^ 16), True))
      else (str, False))"

definition utf32_append :: "nat \<Rightarrow> buffer \<Rightarrow> nat \<Rightarrow> buffer \<times> bool" where
  "utf32_append w str cp =
     (if cp AND (if (0xF800 :: nat) \<noteq> 0xD8 then 1 else 0) \<noteq> 0 \<and> cp < 0x110000
      then (push_unit w str cp, True) else (str, False))"

definition append :: "Encoding \<Rightarrow> nat \<Rightarrow> buffer \<Rightarrow> nat \<Rightarrow> buffer \<times> bool" where
  "append E w str cp =
     (case E of
        UTF8 \<Rightarrow> utf8_append w str cp
      | UTF16 \<Rightarrow> utf16_append w str cp
      | UTF32 \<Rightarrow> utf32_append w str cp
      | _ \<Rightarrow> (push_char w str cp, True))"

section \<open>Algorithms\<close>

subsection \<open>Translation table\<close>

text \<open>
  A \<^verbatim>\<open>std::vector\<close> is its allocated storage (one slot per element of capacity, \<open>None\<close>
  while nothing was stored there) and its size. \<^verbatim>\<open>reserve\<close> grows the storage and
  leaves the size alone; \<^verbatim>\<open>operator []\<close> writes a slot of the storage and leaves the
  size alone; a range-based \<^verbatim>\<open>for\<close> visits the first \<open>size\<close> slots.
\<close>

record Node =
  key :: int
  nvalue :: int

record 'a vector =
  storage :: "'a option list"
  vsize :: nat

definition empty_vector :: "'a vector" where
  "empty_vector = \<lparr>storage = [], vsize = 0\<rparr>"

definition reserve :: "nat \<Rightarrow> 'a vector \<Rightarrow> 'a vector" where
  "reserve n v =
     (if length (storage v) < n
      then v\<lparr>storage := storage v @ replicate (n - length (storage v)) None\<rparr> else v)"

definition vec_store :: "'a vector \<Rightarrow> nat \<Rightarrow> 'a \<Rightarrow> error + 'a vector" where
  "vec_store v i x =
     (if i < length (storage v) then Inr (v\<lparr>storage := (storage v)[i := Some x]\<rparr>)
      else Inl OutOfBounds)"

fun store_nodes ::
  "Encoding \<Rightarrow> buffer \<Rightarrow> (nat \<Rightarrow> error + int) \<Rightarrow> nat \<Rightarrow> nat list \<Rightarrow> Node vector
   \<Rightarrow> error + Node vector" where
  "store_nodes E x y base [] v = Inr v"
| "store_nodes E x y base (i # rest) v =
     (case rd x (int i) of
        Inl e \<Rightarrow> Inl e
      | Inr k \<Rightarrow>
          (case y i of
             Inl e \<Rightarrow> Inl e
           | Inr t \<Rightarrow>
               (case vec_store v (base + i) \<lparr>key = to_int32 E k, nvalue = t\<rparr> of
                  Inl e \<Rightarrow> Inl e
                | Inr v' \<Rightarrow> store_nodes E x y base rest v')))"

text \<open>The constructor \<^verbatim>\<open>Translation(x, y, z)\<close>, reached through \<^verbatim>\<open>maketrans\<close>.\<close>

definition Translation :: "Encoding \<Rightarrow> buffer \<Rightarrow> buffer \<Rightarrow> buffer \<Rightarrow> error + Node vector" where
  "Translation E x y z =
     (let n = length x; m = length z;
          data = reserve (n + m) empty_vector
      in case store_nodes E x (\<lambda>i. bindE (rd y (int i)) (\<lambda>u. Inr (to_int32 E u))) 0 [0..<n] data of
           Inl e \<Rightarrow> Inl e
         | Inr data' \<Rightarrow> store_nodes E z (\<lambda>i. Inr (- 1)) n [0..<m] data')"

definition maketrans :: "Encoding \<Rightarrow> buffer \<Rightarrow> buffer \<Rightarrow> buffer \<Rightarrow> error + Node vector" where
  "maketrans E from to skip = Translation E from to skip"

fun lookup_nodes :: "Node option list \<Rightarrow> int \<Rightarrow> error + int" where
  "lookup_nodes [] c = Inr c"
| "lookup_nodes (None # rest) c = Inl OutOfBounds"
| "lookup_nodes (Some node # rest) c =
     (if key node = c then Inr (nvalue node) else lookup_nodes rest c)"

text \<open>The call operator of the table.\<close>

definition Translation_call :: "Node vector \<Rightarrow> int \<Rightarrow> error + int" where
  "Translation_call data c = lookup_nodes (take (vsize data) (storage data)) c"

subsection \<open>Search\<close>

text \<open>\<^verbatim>\<open>Traits::compare(ptr, sub.data(), sub.size()) == 0\<close>: the units at \<open>ptr\<close> are
  read over the whole length of \<open>sub\<close>.\<close>

definition compare_eq :: "buffer \<Rightarrow> int \<Rightarrow> buffer \<Rightarrow> error + bool" where
  "compare_eq s ptr sub =
     (if sub = [] then Inr True
      else if 0 \<le> ptr \<and> ptr + int (length sub) \<le> int (length s)
      then Inr (slice s ptr (ptr + int (length sub)) = sub)
      else Inl OutOfBounds)"

definition to_size_t :: "int \<Rightarrow> nat" where
  "to_size_t x = nat (x mod 2 ^ 64)"

partial_function (option) find_loop ::
  "Encoding \<Rightarrow> buffer \<Rightarrow> buffer \<Rightarrow> int \<Rightarrow> int \<Rightarrow> (error + nat) option" where
  "find_loop E self sub done iter =
     (if iter_ne E iter done then
        (case compare_eq self iter sub of
           Inl e \<Rightarrow> Some (Inl e)
         | Inr eq \<Rightarrow>
             if eq then Some (Inr (to_size_t iter))
             else (case next_pos E self iter of
                     Inl e \<Rightarrow> Some (Inl e)
                   | Inr iter' \<Rightarrow> find_loop E self sub done iter'))
      else Some (Inr npos))"

declare find_loop.simps [code]

definition find :: "Encoding \<Rightarrow> buffer \<Rightarrow> buffer \<Rightarrow> nat \<Rightarrow> nat \<Rightarrow> (error + nat) option" where
  "find E self sub start end =
     (if length self < length sub then Some (Inr 0)
      else let end' = min end (length self)
           in find_loop E self sub (int end' - int (length sub) + 1) (int start))"


subsection \<open>Split and join\<close>

text \<open>\<^verbatim>\<open>*ptr == ' ' || (*ptr >= 0x9 && *ptr <= 0xD)\<close>\<close>

definition is_space :: "cunit \<Rightarrow> bool" where
  "is_space c = (c = 0x20 \<or> (0x9 \<le> c \<and> c \<le> 0xD))"

text \<open>The inner loop of the whitespace \<^verbatim>\<open>rsplit\<close>:
  \<^verbatim>\<open>while (*ptr is whitespace) -- ptr;\<close>\<close>

function skip_space_back :: "buffer \<Rightarrow> int \<Rightarrow> error + int" where
  "skip_space_back s ptr =
     (case rd s ptr of
        Inl e \<Rightarrow> Inl e
      | Inr c \<Rightarrow> if is_space c then skip_space_back s (ptr - 1) else Inr ptr)"
  by pat_completeness auto
termination
  by (relation "measure (\<lambda>(s, ptr). nat (ptr + 1))") (auto simp: rd_def split: if_splits)

function rsplit_loop ::
  "Encoding \<Rightarrow> buffer \<Rightarrow> nat \<Rightarrow> int \<Rightarrow> int \<Rightarrow> buffer list \<Rightarrow> error + buffer list" where
  "rsplit_loop E self maxsplit iter prev result =
     (if maxsplit \<noteq> 0 \<and> iter_ne E 0 iter then
        (case rd self (iter - 1) of
           Inl e \<Rightarrow> Inl e
         | Inr c \<Rightarrow>
             if is_space c then
               (case skip_space_back self (iter - 1) of
                  Inl e \<Rightarrow> Inl e
                | Inr ptr \<Rightarrow>
                    rsplit_loop E self (maxsplit - 1) ptr (ptr + 1)
                      (result @ [slice self iter prev]))
             else
               (case prev_pos E self iter of
                  Inl e \<Rightarrow> Inl e
                | Inr iter' \<Rightarrow> rsplit_loop E self maxsplit iter' prev result))
      else Inr (rev (result @ [slice self 0 prev])))"
  by pat_completeness auto
termination
proof -
  have skip_le: "q \<le> p" if "skip_space_back s p = Inr q" for s p q
    using that
  proof (induction s p rule: skip_space_back.induct)
    case (1 s ptr)
    show ?case
    proof (cases "rd s ptr")
      case (Inl e)
      with 1(2) show ?thesis by (simp add: skip_space_back.simps[of s ptr])
    next
      case (Inr c)
      show ?thesis
      proof (cases "is_space c")
        case True
        with Inr 1(2) have "skip_space_back s (ptr - 1) = Inr q"
          by (simp add: skip_space_back.simps[of s ptr])
        with 1(1)[OF Inr True] show ?thesis by simp
      next
        case False
        with Inr 1(2) show ?thesis by (simp add: skip_space_back.simps[of s ptr])
      qed
    qed
  qed
  have prev_less: "q < p" if "prev_pos E s p = Inr q" for E s p q
    using that
    by (cases E)
       (auto simp: prev_pos_def utf8_prev_def utf16_prev_def bindE_def
             split: sum.splits if_splits)
  have pos: "1 \<le> p" if "rd s (p - 1) = Inr c" for s p c
    using that by (simp add: rd_def split: if_splits)
  show ?thesis
  proof (relation "measure (\<lambda>(E, self, maxsplit, iter, prev, result). nat iter)")
    show "wf (measure (\<lambda>(E, self, maxsplit, iter, prev, result). nat iter))"
      by simp
  next
    fix E :: Encoding and self :: buffer and maxsplit :: nat and iter prev :: int
      and result :: "buffer list" and c :: cunit and ptr :: int
    assume "rd self (iter - 1) = Inr c" and "skip_space_back self (iter - 1) = Inr ptr"
    then have "1 \<le> iter" and "ptr \<le> iter - 1"
      using pos skip_le by blast+
    then show "((E, self, maxsplit - 1, ptr, ptr + 1, result @ [slice self iter prev]),
                (E, self, maxsplit, iter, prev, result))
               \<in> measure (\<lambda>(E, self, maxsplit, iter, prev, result). nat iter)"
      by simp
  next
    fix E :: Encoding and self :: buffer and maxsplit :: nat and iter prev :: int
      and result :: "buffer list" and c :: cunit and iter' :: int
    assume "rd self (iter - 1) = Inr c" and "prev_pos E self iter = Inr iter'"
    then have "1 \<le> iter" and "iter' < iter"
      using pos prev_less by blast+
    then show "((E, self, maxsplit, iter', prev, result),
                (E, self, maxsplit, iter, prev, result))
               \<in> measure (\<lambda>(E, self, maxsplit, iter, prev, result). nat iter)"
      by simp
  qed
qed

text \<open>Algorithm - rsplit (whitespace).\<close>

definition rsplit :: "Encoding \<Rightarrow> buffer \<Rightarrow> nat \<Rightarrow> error + buffer list" where
  "rsplit E self maxsplit =
     rsplit_loop E self maxsplit (int (length self)) (int (length self)) []"

text \<open>Algorithm - split (separator).\<close>

partial_function (option) split_loop ::
  "Encoding \<Rightarrow> buffer \<Rightarrow> buffer \<Rightarrow> int \<Rightarrow> nat \<Rightarrow> int \<Rightarrow> int \<Rightarrow> buffer list
   \<Rightarrow> (error + buffer list) option" where
  "split_loop E self sep done maxsplit iter prev result =
     (if maxsplit \<noteq> 0 \<and> iter_ne E iter done then
        (case compare_eq self iter sep of
           Inl e \<Rightarrow> Some (Inl e)
         | Inr eq \<Rightarrow>
             if eq then
               split_loop E self sep done (maxsplit - 1)
                 (iter + int (length sep)) (iter + int (length sep))
                 (result @ [slice self prev iter])
             else
               (case next_pos E self iter of
                  Inl e \<Rightarrow> Some (Inl e)
                | Inr iter' \<Rightarrow> split_loop E self sep done maxsplit iter' prev result))
      else Some (Inr (result @ [slice self prev (int (length self))])))"

declare split_loop.simps [code]

definition split :: "Encoding \<Rightarrow> buffer \<Rightarrow> buffer \<Rightarrow> nat \<Rightarrow> (error + buffer list) option" where
  "split E self sep maxsplit =
     (if length sep = 0 then Some (Inl (invalid_argument ''split(): sep''))
      else split_loop E self sep (int (length self) - int (length sep) + 1)
             (if length self < length sep then 0 else maxsplit) 0 0 [])"

text \<open>Algorithm - join (container): the second loop, which copies the items and, before
  every item but the first, the separator.\<close>

fun join_copy :: "buffer \<Rightarrow> bool \<Rightarrow> buffer list \<Rightarrow> buffer \<Rightarrow> buffer" where
  "join_copy self first [] data = data"
| "join_copy self first (item # rest) data =
     join_copy self False rest ((if \<not> first then data @ self else data) @ item)"

definition join :: "buffer \<Rightarrow> buffer list \<Rightarrow> buffer" where
  "join self iterable = join_copy self True iterable []"

subsection \<open>Length in codepoints and alignment\<close>

text \<open>The difference of two iterators: a count of \<^verbatim>\<open>++\<close> steps for UTF-8 and UTF-16,
  the difference of the pointers otherwise.\<close>

partial_function (option) iter_diff ::
  "Encoding \<Rightarrow> buffer \<Rightarrow> int \<Rightarrow> int \<Rightarrow> nat \<Rightarrow> (error + nat) option" where
  "iter_diff E s left right len =
     (if right < left then
        (case next_pos E s right of
           Inl e \<Rightarrow> Some (Inl e)
         | Inr right' \<Rightarrow> iter_diff E s left right' ((len + 1) mod 2 ^ 64))
      else Some (Inr len))"

declare iter_diff.simps [code]

definition length_cp :: "Encoding \<Rightarrow> buffer \<Rightarrow> (error + nat) option" where
  "length_cp E s =
     (case E of
        UTF8 \<Rightarrow> iter_diff E s (int (length s)) 0 0
      | UTF16 \<Rightarrow> iter_diff E s (int (length s)) 0 0
      | _ \<Rightarrow> Some (Inr (length s)))"

definition bindO ::
  "(error + 'a) option \<Rightarrow> ('a \<Rightarrow> (error + 'b) option) \<Rightarrow> (error + 'b) option" where
  "bindO m f = (case m of None \<Rightarrow> None | Some (Inl e) \<Rightarrow> Some (Inl e) | Some (Inr v) \<Rightarrow> f v)"

definition center :: "Encoding \<Rightarrow> buffer \<Rightarrow> nat \<Rightarrow> buffer \<Rightarrow> (error + buffer) option" where
  "center E self width fillchar =
     bindO (length_cp E fillchar) (\<lambda>flen.
       if flen \<noteq> 1 then Some (Inl (invalid_argument ''center(): fillchar''))
       else bindO (length_cp E self) (\<lambda>len.
         if width < len then Some (Inr self)
         else let diff = width - len; l = diff div 2; r = diff - l
              in Some (Inr (concat (replicate l fillchar) @ self
                            @ concat (replicate r fillchar)))))"

definition ljust :: "Encoding \<Rightarrow> buffer \<Rightarrow> nat \<Rightarrow> buffer \<Rightarrow> (error + buffer) option" where
  "ljust E self width fillchar =
     bindO (length_cp E fillchar) (\<lambda>flen.
       if flen \<noteq> 1 then Some (Inl (invalid_argument ''ljust(): fillchar''))
       else bindO (length_cp E self) (\<lambda>len.
         if width < len then Some (Inr self)
         else let diff = width - len
              in Some (Inr (self @ concat (replicate diff fillchar)))))"

definition rjust :: "Encoding \<Rightarrow> buffer \<Rightarrow> nat \<Rightarrow> buffer \<Rightarrow> (error + buffer) option" where
  "rjust E self width fillchar =
     bindO (length_cp E fillchar) (\<lambda>flen.
       if flen \<noteq> 1 then Some (Inl (invalid_argument ''rjust(): fillchar''))
       else bindO (length_cp E self) (\<lambda>len.
         if width < len then Some (Inr self)
         else let diff = width - len
              in Some (Inr (concat (replicate diff fillchar) @ self))))"

subsection \<open>Transcoding\<close>

text \<open>
  \<^verbatim>\<open>transcode(input, output, mode)\<close> returns both strings as the call leaves them. The
  overload for two different encodings appends every encoded codepoint to \<open>input\<close>; the
  iterator and its end are taken from \<open>input\<close> before the loop, so the loop stops at the
  original end and its reads see the string as it has grown.
\<close>

definition transcode_step ::
  "Errors \<Rightarrow> Encoding \<Rightarrow> nat \<Rightarrow> buffer \<Rightarrow> int \<Rightarrow> error + buffer" where
  "transcode_step mode To w input cp =
     (case mode of
        Strict \<Rightarrow>
          if cp < 0 then Inl (invalid_argument ''transcode(): input: Decoding error!'')
          else (case append To w input (u32 cp) of
                  (input', ok) \<Rightarrow>
                    if \<not> ok then Inl (invalid_argument ''transcode(): input: Encoding error!'')
                    else Inr input')
      | Replace \<Rightarrow>
          if cp < 0 then Inr (fst (append To w input (u32 (replacement To))))
          else (case append To w input (u32 cp) of
                  (input', ok) \<Rightarrow>
                    if \<not> ok then Inr (fst (append To w input' (u32 (replacement To))))
                    else Inr input')
      | Ignore \<Rightarrow>
          if cp > 0 then Inr (fst (append To w input (u32 cp))) else Inr input)"

partial_function (option) transcode_loop ::
  "Errors \<Rightarrow> Encoding \<Rightarrow> Encoding \<Rightarrow> int \<Rightarrow> buffer \<Rightarrow> int \<Rightarrow> (error + buffer) option" where
  "transcode_loop mode From To done input iter =
     (if iter_ne From iter done then
        (case deref From input iter of
           Inl e \<Rightarrow> Some (Inl e)
         | Inr cp \<Rightarrow>
             (case transcode_step mode To (char_width From) input cp of
                Inl e \<Rightarrow> Some (Inl e)
              | Inr input' \<Rightarrow>
                  (case next_pos From input' iter of
                     Inl e \<Rightarrow> Some (Inl e)
                   | Inr iter' \<Rightarrow> transcode_loop mode From To done input' iter')))
      else Some (Inr input))"

declare transcode_loop.simps [code]

definition transcode ::
  "Encoding \<Rightarrow> Encoding \<Rightarrow> buffer \<Rightarrow> buffer \<Rightarrow> Errors \<Rightarrow> (error + buffer \<times> buffer) option" where
  "transcode From To input output mode =
     (if From = To then Some (Inr (input, input))
      else bindO (transcode_loop mode From To (int (length input)) input 0)
             (\<lambda>input'. Some (Inr (input', output))))"

subsection \<open>Quoting\<close>

definition hex_digit :: "nat \<Rightarrow> cunit" where
  "hex_digit n = of_char (''0123456789abcdef'' ! n)"

text \<open>
  One pass of the loop body of \<^verbatim>\<open>quote\<close> for the codepoint \<open>ch\<close> (an
  \<^verbatim>\<open>uint32_t\<close>). The case for the null character has no \<^verbatim>\<open>continue\<close>: control
  falls into the case for \<^verbatim>\<open>'\a'\<close>.
\<close>

definition quote_char :: "bool \<Rightarrow> Encoding \<Rightarrow> nat \<Rightarrow> buffer \<Rightarrow> nat \<Rightarrow> buffer" where
  "quote_char Ascii To w result ch =
     (if ch = 0x27 \<or> ch = 0x22 \<or> ch = 0x5C then push_char w (push_char w result 0x5C) ch
      else if ch = 0 \<or> ch = 7 then
        (let result' = (if ch = 0 then push_char w (push_char w result 0x5C) 0x30 else result)
         in push_char w (push_char w result' 0x5C) 0x61)
      else if ch = 8 then push_char w (push_char w result 0x5C) 0x62
      else if ch = 12 then push_char w (push_char w result 0x5C) 0x66
      else if ch = 10 then push_char w (push_char w result 0x5C) 0x6E
      else if ch = 13 then push_char w (push_char w result 0x5C) 0x72
      else if ch = 9 then push_char w (push_char w result 0x5C) 0x74
      else if ch = 11 then push_char w (push_char w result 0x5C) 0x76
      else if ch < 0x20 \<or> (Ascii \<and> ch \<ge> 0x80) then
        (if ch < 0x10000 then
           result @ [0x5C, 0x75, hex_digit (drop_bit 12 ch AND 0xF),
                     hex_digit (drop_bit 8 ch AND 0xF), hex_digit (drop_bit 4 ch AND 0xF),
                     hex_digit (ch AND 0xF)]
         else if ch < 0x110000 then
           result @ [0x5C, 0x55, hex_digit (drop_bit 28 ch AND 0xF),
                     hex_digit (drop_bit 24 ch AND 0xF), hex_digit (drop_bit 20 ch AND 0xF),
                     hex_digit (drop_bit 16 ch AND 0xF), hex_digit (drop_bit 12 ch AND 0xF),
                     hex_digit (drop_bit 8 ch AND 0xF), hex_digit (drop_bit 4 ch AND 0xF),
                     hex_digit (ch AND 0xF)]
         else if Ascii then push_char w result 0x3F
         else fst (append To w result (u32 (replacement To))))
      else if Ascii then push_unit w result ch
      else (case append To w result ch of
              (result', ok) \<Rightarrow>
                if \<not> ok then fst (append To w result' (u32 (replacement To))) else result'))"

partial_function (option) quote_loop ::
  "bool \<Rightarrow> Encoding \<Rightarrow> Encoding \<Rightarrow> buffer \<Rightarrow> int \<Rightarrow> buffer \<Rightarrow> (error + buffer) option" where
  "quote_loop Ascii From To self iter result =
     (if iter_ne From iter (int (length self)) then
        (case deref From self iter of
           Inl e \<Rightarrow> Some (Inl e)
         | Inr cp \<Rightarrow>
             (case next_pos From self iter of
                Inl e \<Rightarrow> Some (Inl e)
              | Inr iter' \<Rightarrow>
                  quote_loop Ascii From To self iter'
                    (quote_char Ascii To (char_width To) result (u32 cp))))
      else Some (Inr (push_char (char_width To) result 0x22)))"

declare quote_loop.simps [code]

definition quote :: "bool \<Rightarrow> Encoding \<Rightarrow> Encoding \<Rightarrow> buffer \<Rightarrow> (error + buffer) option" where
  "quote Ascii From To self = quote_loop Ascii From To self 0 (push_char (char_width To) [] 0x22)"

section \<open>Format specifier\<close>

text \<open>
  The fields of \<^verbatim>\<open>impl::Specifier\<close>: \<^verbatim>\<open>type\<close>, \<^verbatim>\<open>sign\<close> and
  \<^verbatim>\<open>align\<close> are characters (0 when unset); \<^verbatim>\<open>width\<close> and \<^verbatim>\<open>precision\<close>
  are \<open>npos\<close> when unset; \<^verbatim>\<open>fill\<close> and \<^verbatim>\<open>other\<close> are views.
\<close>

record Specifier =
  spec_type :: nat
  spec_sign :: nat
  spec_align :: nat
  spec_alter :: bool
  spec_comma :: bool
  spec_width :: nat
  spec_precision :: nat
  spec_fill :: buffer
  spec_other :: buffer

definition default_Specifier :: Specifier where
  "default_Specifier =
     \<lparr>spec_type = 0, spec_sign = 0, spec_align = 0, spec_alter = False, spec_comma = False,
      spec_width = npos, spec_precision = npos, spec_fill = [], spec_other = []\<rparr>"

definition is_align :: "int \<Rightarrow> bool" where
  "is_align ch = (ch = 0x3C \<or> ch = 0x3E \<or> ch = 0x3D \<or> ch = 0x5E)"

definition is_sign :: "int \<Rightarrow> bool" where
  "is_sign ch = (ch = 0x2B \<or> ch = 0x2D \<or> ch = 0x20)"

definition is_alpha :: "int \<Rightarrow> bool" where
  "is_alpha ch = ((ch \<ge> 0x41 \<and> ch \<le> 0x5A) \<or> (ch \<ge> 0x61 \<and> ch \<le> 0x7A))"

definition is_digit :: "int \<Rightarrow> bool" where
  "is_digit ch = (ch \<ge> 0x30 \<and> ch \<le> 0x39)"

text \<open>\<^verbatim>\<open>iter < end && P(*iter)\<close>\<close>

definition at_is :: "(int \<Rightarrow> bool) \<Rightarrow> Encoding \<Rightarrow> buffer \<Rightarrow> int \<Rightarrow> int \<Rightarrow> error + bool" where
  "at_is P E mem end iter =
     (if iter < end then bindE (rd mem iter) (\<lambda>u. Inr (P (to_int32 E u))) else Inr False)"

text \<open>\<^verbatim>\<open>for (++ iter; iter < end && is_digit(*iter); ++ iter) acc = acc * 10 + (*iter) - '0';\<close>
  from the position after the increment.\<close>

function parse_digits ::
  "Encoding \<Rightarrow> buffer \<Rightarrow> int \<Rightarrow> int \<Rightarrow> nat \<Rightarrow> error + int \<times> nat" where
  "parse_digits E mem end iter acc =
     (if iter < end then
        (case rd mem iter of
           Inl e \<Rightarrow> Inl e
         | Inr u \<Rightarrow>
             if is_digit (to_int32 E u)
             then parse_digits E mem end (iter + 1) ((acc * 10 + u - 0x30) mod 2 ^ 64)
             else Inr (iter, acc))
      else Inr (iter, acc))"
  by pat_completeness auto
termination
  by (relation "measure (\<lambda>(E, mem, end, iter, acc). nat (end - iter))") auto

definition parse_fill_align ::
  "Encoding \<Rightarrow> buffer \<Rightarrow> int \<Rightarrow> Specifier \<times> int \<Rightarrow> error + Specifier \<times> int" where
  "parse_fill_align E mem end st =
     (case st of (sp, iter) \<Rightarrow>
        bindE (next_pos E mem iter) (\<lambda>second.
        bindE (at_is is_align E mem end second) (\<lambda>b.
          if b then
            bindE (rd mem second) (\<lambda>u.
              Inr (sp\<lparr>spec_fill := slice mem iter second, spec_align := u\<rparr>, second + 1))
          else
            bindE (at_is is_align E mem end iter) (\<lambda>b'.
              if b' then bindE (rd mem iter) (\<lambda>u. Inr (sp\<lparr>spec_align := u\<rparr>, iter + 1))
              else Inr (sp, iter)))))"

definition parse_sign ::
  "Encoding \<Rightarrow> buffer \<Rightarrow> int \<Rightarrow> Specifier \<times> int \<Rightarrow> error + Specifier \<times> int" where
  "parse_sign E mem end st =
     (case st of (sp, iter) \<Rightarrow>
        bindE (at_is is_sign E mem end iter) (\<lambda>b.
          if b then bindE (rd mem iter) (\<lambda>u. Inr (sp\<lparr>spec_sign := u\<rparr>, iter + 1))
          else Inr (sp, iter)))"

definition parse_alter ::
  "Encoding \<Rightarrow> buffer \<Rightarrow> int \<Rightarrow> Specifier \<times> int \<Rightarrow> error + Specifier \<times> int" where
  "parse_alter E mem end st =
     (case st of (sp, iter) \<Rightarrow>
        bindE (at_is (\<lambda>ch. ch = 0x23) E mem end iter) (\<lambda>b.
          if b then Inr (sp\<lparr>spec_alter := True\<rparr>, iter + 1) else Inr (sp, iter)))"

text \<open>
  \<^verbatim>\<open>string_literal<Char, c>()\<close> returns a pointer to a static array that holds the one unit
  \<open>c\<close> and no terminator. Where the code assigns it to a view, the constructor of the view
  takes its length with \<^verbatim>\<open>Traits::length\<close>, which reads on behind the array up to the first
  unit 0. What lies behind the array is not fixed by the source: it is the parameter
  \<open>after\<close>, the memory that follows the array of each literal. The view is the unit \<open>c\<close>
  and the units of that memory in front of its first 0.
\<close>

type_synonym literal_memory = "cunit \<Rightarrow> buffer"

definition string_literal :: "literal_memory \<Rightarrow> cunit \<Rightarrow> error + buffer" where
  "string_literal after c =
     (if 0 \<in> set (after c) then Inr (c # takeWhile (\<lambda>u. u \<noteq> 0) (after c))
      else Inl OutOfBounds)"

text \<open>The zero flag.\<close>

definition parse_zero ::
  "Encoding \<Rightarrow> literal_memory \<Rightarrow> buffer \<Rightarrow> int \<Rightarrow> Specifier \<times> int
   \<Rightarrow> error + Specifier \<times> int" where
  "parse_zero E after mem end st =
     (case st of (sp, iter) \<Rightarrow>
        bindE (at_is (\<lambda>ch. ch = 0x30) E mem end iter) (\<lambda>b.
          if b then
            (let sp1 = (if spec_align sp = 0 then sp\<lparr>spec_align := 0x3D\<rparr> else sp)
             in if spec_fill sp1 = [] then
                  bindE (string_literal after 0x30) (\<lambda>fill.
                    Inr (sp1\<lparr>spec_fill := fill\<rparr>, iter + 1))
                else Inr (sp1, iter + 1))
          else Inr (sp, iter)))"

definition parse_width ::
  "Encoding \<Rightarrow> buffer \<Rightarrow> int \<Rightarrow> Specifier \<times> int \<Rightarrow> error + Specifier \<times> int" where
  "parse_width E mem end st =
     (case st of (sp, iter) \<Rightarrow>
        bindE (at_is is_digit E mem end iter) (\<lambda>b.
          if b then
            bindE (rd mem iter) (\<lambda>u.
            bindE (parse_digits E mem end (iter + 1) (u - 0x30)) (\<lambda>r.
              Inr (sp\<lparr>spec_width := snd r\<rparr>, fst r)))
          else Inr (sp, iter)))"

definition parse_comma ::
  "Encoding \<Rightarrow> buffer \<Rightarrow> int \<Rightarrow> Specifier \<times> int \<Rightarrow> error + Specifier \<times> int" where
  "parse_comma E mem end st =
     (case st of (sp, iter) \<Rightarrow>
        bindE (at_is (\<lambda>ch. ch = 0x2C) E mem end iter) (\<lambda>b.
          if b then Inr (sp\<lparr>spec_comma := True\<rparr>, iter + 1) else Inr (sp, iter)))"

definition parse_precision ::
  "Encoding \<Rightarrow> buffer \<Rightarrow> int \<Rightarrow> Specifier \<times> int \<Rightarrow> error + Specifier \<times> int" where
  "parse_precision E mem end st =
     (case st of (sp, iter) \<Rightarrow>
        bindE (at_is (\<lambda>ch. ch = 0x2E) E mem end iter) (\<lambda>b.
          if b then
            bindE (parse_digits E mem end (iter + 1) 0) (\<lambda>r.
              Inr (sp\<lparr>spec_precision := snd r\<rparr>, fst r))
          else Inr (sp, iter)))"

definition parse_type ::
  "Encoding \<Rightarrow> buffer \<Rightarrow> int \<Rightarrow> Specifier \<times> int \<Rightarrow> error + Specifier" where
  "parse_type E mem end st =
     (case st of (sp, iter) \<Rightarrow>
        bindE (at_is is_alpha E mem end iter) (\<lambda>b.
          if b then
            bindE (rd mem iter) (\<lambda>u.
              let sp1 = sp\<lparr>spec_type := u\<rparr>
              in if iter + 1 < end then Inr (sp1\<lparr>spec_other := slice mem (iter + 1) end\<rparr>)
                 else Inr sp1)
          else Inr sp))"

text \<open>The constructor of \<^verbatim>\<open>Specifier\<close>, for the view from \<open>start\<close> to \<open>end\<close> of the
  template \<open>mem\<close>.\<close>

definition Specifier ::
  "Encoding \<Rightarrow> literal_memory \<Rightarrow> buffer \<Rightarrow> int \<Rightarrow> int \<Rightarrow> error + Specifier" where
  "Specifier E after mem start end =
     (if end - start = 0 then Inr default_Specifier
      else
        bindE (parse_fill_align E mem end (default_Specifier, start)) (\<lambda>st1.
        bindE (parse_sign E mem end st1) (\<lambda>st2.
        bindE (parse_alter E mem end st2) (\<lambda>st3.
        bindE (parse_zero E after mem end st3) (\<lambda>st4.
        bindE (parse_width E mem end st4) (\<lambda>st5.
        bindE (parse_comma E mem end st5) (\<lambda>st6.
        bindE (parse_precision E mem end st6) (\<lambda>st7.
          parse_type E mem end st7))))))))"

section \<open>Rendering\<close>

subsection \<open>Truncation\<close>

partial_function (option) truncate_loop ::
  "Encoding \<Rightarrow> buffer \<Rightarrow> nat \<Rightarrow> int \<Rightarrow> nat \<Rightarrow> (error + buffer) option" where
  "truncate_loop E self width iter count =
     (if iter_ne E iter (int (length self)) then
        (if count = width then Some (Inr (slice self 0 iter))
         else (case next_pos E self iter of
                 Inl e \<Rightarrow> Some (Inl e)
               | Inr iter' \<Rightarrow> truncate_loop E self width iter' (count + 1)))
      else Some (Inr self))"

declare truncate_loop.simps [code]

definition truncate :: "Encoding \<Rightarrow> buffer \<Rightarrow> nat \<Rightarrow> (error + buffer) option" where
  "truncate E self width = truncate_loop E self width 0 0"

text \<open>\<^verbatim>\<open>default_encoding<Char>\<close>, by the width of \<^verbatim>\<open>Char\<close>.\<close>

definition default_encoding :: "nat \<Rightarrow> Encoding" where
  "default_encoding w = (if w = 8 then UTF8 else if w = 16 then UTF16 else UTF32)"

text \<open>
  \<^verbatim>\<open>better_string_view<Char>::format__<CharTo, To>(str, spec)\<close> for a string of the
  unit type of \<open>To\<close>: the string is transcoded from its default encoding, then truncated
  and aligned.
\<close>

definition string_format ::
  "Encoding \<Rightarrow> literal_memory \<Rightarrow> buffer \<Rightarrow> Specifier \<Rightarrow> (error + buffer) option" where
  "string_format To after str sp =
     bindO (transcode (default_encoding (char_width To)) To str [] Replace) (\<lambda>io.
       let result = snd io in
       if spec_type sp \<noteq> 0 \<and> spec_type sp \<noteq> 0x73 then
         Some (Inl (invalid_argument ''string::format__(): spec: Invalid format code!''))
       else if spec_sign sp \<noteq> 0 then
         Some (Inl (invalid_argument ''string::format__(): spec: Sign is not allowed!''))
       else if spec_align sp = 0x3D then
         Some (Inl (invalid_argument
           ''string::format__(): spec: Numeric alignment (=) is not allowed!''))
       else if spec_alter sp then
         Some (Inl (invalid_argument
           ''string::format__(): spec: Alternate form (#) is not allowed!''))
       else if spec_comma sp then
         Some (Inl (invalid_argument
           ''string::format__(): spec: Comma separator (,) is not allowed!''))
       else if length (spec_other sp) \<noteq> 0 then
         Some (Inl (invalid_argument ''string::format__(): spec: Invalid format specification!''))
       else
         bindO (if spec_precision sp \<noteq> npos then truncate To result (spec_precision sp)
                else Some (Inr result)) (\<lambda>result1.
           if spec_width sp \<noteq> npos then
             (let align = (if spec_align sp = 0 then 0x3C else spec_align sp)
              in case (if spec_fill sp = [] then string_literal after 0x20
                       else Inr (spec_fill sp)) of
                   Inl e \<Rightarrow> Some (Inl e)
                 | Inr fill \<Rightarrow>
                     if align = 0x3C then ljust To result1 (spec_width sp) fill
                     else if align = 0x3E then rjust To result1 (spec_width sp) fill
                     else if align = 0x5E then center To result1 (spec_width sp) fill
                     else Some (Inl (invalid_argument
                            ''string::format__(): spec: Invalid alignment!'')))
           else Some (Inr result1)))"

text \<open>The digit loops of the integer renderers:
  \<^verbatim>\<open>do { number.push_back(digits[n % base]); n /= base; } while (n > 0);\<close>
  The base is 2, 8, 10 or 16.\<close>

definition digit_char :: "bool \<Rightarrow> nat \<Rightarrow> cunit" where
  "digit_char upper d =
     of_char ((if upper then ''0123456789ABCDEF'' else ''0123456789abcdef'') ! d)"

function number_digits :: "nat \<Rightarrow> bool \<Rightarrow> nat \<Rightarrow> buffer" where
  "number_digits base upper n =
     digit_char upper (n mod base)
       # (if 2 \<le> base \<and> n div base > 0 then number_digits base upper (n div base) else [])"
  by pat_completeness auto
termination
proof (relation "measure (\<lambda>(base, upper, n). n)")
  show "wf (measure (\<lambda>(base, upper, n). n))"
    by simp
next
  fix base :: nat and upper :: bool and n :: nat
  assume "2 \<le> base \<and> 0 < n div base"
  then have "1 < base" and "0 < n"
    by (auto intro: Nat.gr0I)
  then have "n div base < n"
    by (rule div_less_dividend)
  then show "((base, upper, n div base), (base, upper, n)) \<in> measure (\<lambda>(base, upper, n). n)"
    by simp
qed

text \<open>\<^verbatim>\<open>uint64_t n = value < 0 ? -value : value;\<close>\<close>

definition magnitude :: "int \<Rightarrow> nat" where
  "magnitude v = nat ((if v < 0 then - v else v) mod 2 ^ 64)"

text \<open>\<^verbatim>\<open>format_proxy<int64_t>::type::str__\<close>\<close>

definition int64_str :: "int \<Rightarrow> buffer" where
  "int64_str v =
     (let number = number_digits 10 False (magnitude v);
          number1 = (if v < 0 then number @ [0x2D] else number)
      in rev number1)"

text \<open>\<^verbatim>\<open>format_proxy<int64_t>::type::format__\<close>. In the branch for a width, an alignment
  other than \<^verbatim>\<open><\<close>, \<^verbatim>\<open>>\<close> and \<^verbatim>\<open>^\<close> builds an exception object and does not
  throw it.\<close>

definition int64_format ::
  "Encoding \<Rightarrow> literal_memory \<Rightarrow> int \<Rightarrow> Specifier \<Rightarrow> (error + buffer) option" where
  "int64_format E after v sp =
     (let t = spec_type sp; w = char_width E in
      if t = 0x63 then
        (let temp = (case append E w [] (u32 v) of
                       (s, ok) \<Rightarrow> if \<not> ok then fst (append E w s (u32 (replacement E))) else s)
         in string_format E after temp (sp\<lparr>spec_type := 0x73\<rparr>))
      else if t = 0x65 \<or> t = 0x45 \<or> t = 0x66 \<or> t = 0x46 \<or> t = 0x67 \<or> t = 0x47 \<or> t = 0x25 then
        Some (Inl (logic_error ''Not implemented!''))
      else if \<not> (t = 0x62 \<or> t = 0x6F \<or> t = 0 \<or> t = 0x64 \<or> t = 0x6E \<or> t = 0x78 \<or> t = 0x58) then
        Some (Inl (invalid_argument ''int64_t::format__(): spec: Invalid format code!''))
      else
        (let base = (if t = 0x62 then 2 else if t = 0x6F then 8
                     else if t = 0x78 \<or> t = 0x58 then 16 else 10 :: nat) in
         if spec_comma sp then
           Some (Inl (invalid_argument
             ''int64_t::format__(): spec: Comma separator (,) is not allowed!''))
         else if spec_precision sp \<noteq> npos then
           Some (Inl (invalid_argument
             ''int64_t::format__(): spec: Precision (.) is not allowed!''))
         else if spec_other sp \<noteq> [] then
           Some (Inl (invalid_argument
             ''int64_t::format__(): spec: Invalid format specification!''))
         else
           (let result0 = (if v < 0 then [0x2D] else if spec_sign sp \<noteq> 0 then [0x2B] else []);
                result1 = (if spec_alter sp \<and> base \<noteq> 10 then result0 @ [0x30, t] else result0);
                number = number_digits base (t = 0x58) (magnitude v)
            in if spec_width sp \<noteq> npos then
                 (case (if spec_fill sp = [] then string_literal after 0x20
                        else Inr (spec_fill sp)) of
                    Inl e \<Rightarrow> Some (Inl e)
                  | Inr fill \<Rightarrow>
                      (let align = (if spec_align sp = 0 then 0x3E else spec_align sp);
                           result2 =
                             (if align = 0x3D \<and> spec_width sp > length result1 + length number
                              then result1 @ concat (replicate
                                     (spec_width sp - length result1 - length number) fill)
                              else result1);
                           result3 = result2 @ rev number
                       in if align = 0x3C then ljust E result3 (spec_width sp) fill
                          else if align = 0x3E then rjust E result3 (spec_width sp) fill
                          else if align = 0x5E then center E result3 (spec_width sp) fill
                          else Some (Inr result3)))
               else Some (Inr (result1 @ rev number)))))"

text \<open>
  \<^verbatim>\<open>impl::formatter<E, Char, T>\<close> for an integer argument: what the call appends to
  \<^verbatim>\<open>out\<close>. The format specification is the view from \<open>start\<close> to \<open>end\<close> of the memory
  \<open>mem\<close> of the template, converted to a \<^verbatim>\<open>Specifier\<close> at the call of
  \<^verbatim>\<open>format__\<close>.
\<close>

type_synonym formatter = "nat \<Rightarrow> buffer \<Rightarrow> int \<Rightarrow> int \<Rightarrow> (error + buffer) option"

definition formatter_int64 :: "Encoding \<Rightarrow> literal_memory \<Rightarrow> int \<Rightarrow> formatter" where
  "formatter_int64 E after v func mem start end =
     (if func = 0 then
        (case Specifier E after mem start end of
           Inl e \<Rightarrow> Some (Inl e)
         | Inr sp \<Rightarrow> int64_format E after v sp)
      else if func = 0x61 \<or> func = 0x72 \<or> func = 0x73 then
        (case Specifier E after mem start end of
           Inl e \<Rightarrow> Some (Inl e)
         | Inr sp \<Rightarrow> string_format E after (int64_str v) sp)
      else Some (Inr []))"

section \<open>Format engine\<close>

text \<open>
  The template of \<^verbatim>\<open>format1\<close> is the memory \<open>mem\<close> from \<^verbatim>\<open>self.data()\<close> on, of which
  the first \<open>n\<close> units are the template (\<^verbatim>\<open>end = iter + self.size()\<close>). The loop tests
  \<^verbatim>\<open>iter < end\<close>; several reads of \<^verbatim>\<open>*iter\<close> come after an increment and are not
  tested, so they can read the unit at \<open>end\<close>. For a \<^verbatim>\<open>better_string\<close> that unit is the
  terminator 0 of the string.
\<close>

text \<open>The scan for the end of a format specification:
  \<^verbatim>\<open>for (; iter < end; iter = next(iter))\<close> with the nesting level of the braces.\<close>

partial_function (option) scan_spec ::
  "Encoding \<Rightarrow> buffer \<Rightarrow> int \<Rightarrow> int \<Rightarrow> nat \<Rightarrow> (error + int \<times> nat) option" where
  "scan_spec E mem n iter level =
     (if iter < n then
        (case rd mem iter of
           Inl e \<Rightarrow> Some (Inl e)
         | Inr c \<Rightarrow>
             if c = 0x7D \<and> level = 1 then Some (Inr (iter, 0))
             else (case next_pos E mem iter of
                     Inl e \<Rightarrow> Some (Inl e)
                   | Inr iter' \<Rightarrow>
                       scan_spec E mem n iter'
                         (if c = 0x7B then (level + 1) mod 2 ^ 64
                          else if c = 0x7D then (level + 2 ^ 64 - 1) mod 2 ^ 64
                          else level)))
      else Some (Inr (iter, level)))"

declare scan_spec.simps [code]

text \<open>\<^verbatim>\<open>is_digit\<close> and \<^verbatim>\<open>is_conv\<close> of \<^verbatim>\<open>format1\<close> take a \<^verbatim>\<open>char\<close>.\<close>

definition to_char :: "cunit \<Rightarrow> int" where
  "to_char u = (let b = u mod 256 in if b < 128 then int b else int b - 256)"

definition is_conv :: "int \<Rightarrow> bool" where
  "is_conv ch = (ch = 0x61 \<or> ch = 0x72 \<or> ch = 0x73)"

text \<open>The digits of a manual index:
  \<^verbatim>\<open>for (++ iter; iter < end && is_digit(*iter); ++ iter) index = index * 10 + (*iter) - '0';\<close>\<close>

function index_digits :: "buffer \<Rightarrow> int \<Rightarrow> int \<Rightarrow> nat \<Rightarrow> error + int \<times> nat" where
  "index_digits mem n iter acc =
     (if iter < n then
        (case rd mem iter of
           Inl e \<Rightarrow> Inl e
         | Inr c \<Rightarrow>
             if is_digit (to_char c)
             then index_digits mem n (iter + 1) ((acc * 10 + c - 0x30) mod 2 ^ 64)
             else Inr (iter, acc))
      else Inr (iter, acc))"
  by pat_completeness auto
termination
  by (relation "measure (\<lambda>(mem, n, iter, acc). nat (n - iter))") auto

text \<open>The index of a replacement field, from the unit after the opening brace: the index,
  the position after it and the new value of the shared position counter (0 before the first
  field, \<open>npos\<close> once an index was written out, the next automatic index otherwise).\<close>

definition field_index :: "buffer \<Rightarrow> int \<Rightarrow> int \<Rightarrow> nat \<Rightarrow> error + nat \<times> int \<times> nat" where
  "field_index mem n iter position =
     bindE (rd mem iter) (\<lambda>c.
       if is_digit (to_char c) then
         (if position \<noteq> 0 \<and> position \<noteq> npos then
            Inl (invalid_argument
              ''format(): format - Switching from automatic to manual indexing'')
          else
            bindE (index_digits mem n (iter + 1) ((c - 0x30) mod 2 ^ 64)) (\<lambda>r.
              Inr (snd r, fst r, npos)))
       else if position = npos then
         Inl (invalid_argument
           ''format(): format - Switching from manual to automatic indexing'')
       else Inr (position, iter, (position + 1) mod 2 ^ 64))"

text \<open>The conversion of a replacement field: the conversion character (0 without one) and
  the position reached. The position stays on the conversion character.\<close>

definition field_conv :: "buffer \<Rightarrow> int \<Rightarrow> error + nat \<times> int" where
  "field_conv mem iter =
     bindE (rd mem iter) (\<lambda>c.
       if c = 0x21 then
         bindE (rd mem (iter + 1)) (\<lambda>c'.
           if is_conv (to_char c') then Inr (c', iter + 1)
           else Inl (invalid_argument ''format(): format - Invalid conversion''))
       else Inr (0, iter))"

text \<open>The format specification of a replacement field: the view of the specification (an
  empty view without one) and the position reached.\<close>

definition field_spec ::
  "Encoding \<Rightarrow> buffer \<Rightarrow> int \<Rightarrow> int \<Rightarrow> (error + (int \<times> int) \<times> int) option" where
  "field_spec E mem n iter =
     (case rd mem iter of
        Inl e \<Rightarrow> Some (Inl e)
      | Inr c \<Rightarrow>
          if c = 0x3A then
            bindO (scan_spec E mem n (iter + 1) 1) (\<lambda>r.
              if snd r > 0 then
                Some (Inl (invalid_argument
                  ''format(): format - Unterminated format sequence''))
              else Some (Inr ((iter + 1, fst r), fst r)))
          else Some (Inr ((0, 0), iter)))"

text \<open>A replacement field after its index, from the position \<open>iter\<close> behind the index:
  index operators, conversion, format specification, closing brace and the call of the
  formatter of the argument. It gives the position after the field and the result.\<close>

definition field_rest ::
  "Encoding \<Rightarrow> buffer \<Rightarrow> int \<Rightarrow> formatter \<Rightarrow> int \<Rightarrow> buffer \<Rightarrow> (error + int \<times> buffer) option" where
  "field_rest E mem n formatter iter result =
     (case rd mem iter of
        Inl e \<Rightarrow> Some (Inl e)
      | Inr c \<Rightarrow>
          if c = 0x5B then Some (Inl (logic_error ''Not implemented!''))
          else
            (case field_conv mem iter of
               Inl e \<Rightarrow> Some (Inl e)
             | Inr (conv, iter2) \<Rightarrow>
                 bindO (field_spec E mem n iter2) (\<lambda>r.
                   case r of ((start, stop), iter3) \<Rightarrow>
                     (case rd mem iter3 of
                        Inl e \<Rightarrow> Some (Inl e)
                      | Inr c3 \<Rightarrow>
                          if c3 \<noteq> 0x7D then
                            Some (Inl (invalid_argument
                              ''format(): format - Unterminated format sequence''))
                          else
                            bindO (formatter conv mem start stop) (\<lambda>out.
                              Some (Inr (iter3 + 1, result @ out)))))))"

text \<open>A replacement field, from the unit after its opening brace: the position after the
  field, the position counter and the result.\<close>

definition format_field ::
  "Encoding \<Rightarrow> buffer \<Rightarrow> int \<Rightarrow> formatter list \<Rightarrow> int \<Rightarrow> nat \<Rightarrow> buffer
   \<Rightarrow> (error + int \<times> nat \<times> buffer) option" where
  "format_field E mem n formatters iter position result =
     (case field_index mem n iter position of
        Inl e \<Rightarrow> Some (Inl e)
      | Inr (index, iter1, position') \<Rightarrow>
          if index \<ge> length formatters then
            Some (Inl (out_of_range ''format(): Argument index out of range''))
          else
            bindO (field_rest E mem n (formatters ! index) iter1 result) (\<lambda>r.
              Some (Inr (fst r, position', snd r))))"

text \<open>
  The state of the loop of \<^verbatim>\<open>format1\<close>: \<^verbatim>\<open>iter\<close>, \<^verbatim>\<open>from\<close>, the position counter
  and the result. One pass of the body of \<^verbatim>\<open>while (iter < end)\<close>:
\<close>

type_synonym format_state = "int \<times> int \<times> nat \<times> buffer"

definition format1_step ::
  "Encoding \<Rightarrow> buffer \<Rightarrow> int \<Rightarrow> formatter list \<Rightarrow> format_state
   \<Rightarrow> (error + format_state) option" where
  "format1_step E mem n formatters st =
     (case st of (iter, from, position, result) \<Rightarrow>
        (case rd mem iter of
           Inl e \<Rightarrow> Some (Inl e)
         | Inr c \<Rightarrow>
             if c = 0x7B then
               (case rd mem (iter + 1) of
                  Inl e \<Rightarrow> Some (Inl e)
                | Inr c' \<Rightarrow>
                    if c' = 0x7B then
                      Some (Inr (iter + 2, iter + 1, position, result @ slice mem from iter))
                    else
                      (case format_field E mem n formatters (iter + 1) position
                              (result @ slice mem from iter) of
                         None \<Rightarrow> None
                       | Some (Inl e) \<Rightarrow> Some (Inl e)
                       | Some (Inr (iter', position', result')) \<Rightarrow>
                           Some (Inr (iter', iter', position', result'))))
             else if c = 0x7D then
               (case rd mem (iter + 1) of
                  Inl e \<Rightarrow> Some (Inl e)
                | Inr c' \<Rightarrow>
                    if c' \<noteq> 0x7D then
                      Some (Inl (invalid_argument
                        ''format(): format - Single '}' in format string''))
                    else
                      Some (Inr (iter + 2, iter + 1, position, result @ slice mem from iter)))
             else
               (case next_pos E mem iter of
                  Inl e \<Rightarrow> Some (Inl e)
                | Inr iter' \<Rightarrow> Some (Inr (iter', from, position, result)))))"

text \<open>Algorithm - format (implementation): the loop over the template. It returns the result
  and the position counter, which the caller passes by reference.\<close>

partial_function (option) format1_loop ::
  "Encoding \<Rightarrow> buffer \<Rightarrow> int \<Rightarrow> formatter list \<Rightarrow> format_state
   \<Rightarrow> (error + buffer \<times> nat) option" where
  "format1_loop E mem n formatters st =
     (if fst st < n then
        (case format1_step E mem n formatters st of
           None \<Rightarrow> None
         | Some (Inl e) \<Rightarrow> Some (Inl e)
         | Some (Inr st') \<Rightarrow> format1_loop E mem n formatters st')
      else
        (case st of (iter, from, position, result) \<Rightarrow>
           Some (Inr (result @ slice mem from n, position))))"

declare format1_loop.simps [code]

definition format1 ::
  "Encoding \<Rightarrow> buffer \<Rightarrow> int \<Rightarrow> formatter list \<Rightarrow> nat \<Rightarrow> (error + buffer \<times> nat) option" where
  "format1 E mem n formatters position = format1_loop E mem n formatters (0, 0, position, [])"

text \<open>Algorithm - format, called on a \<^verbatim>\<open>better_string\<close>: the memory of the template is its
  units and the terminator, and the position counter starts at 0.\<close>

definition format :: "Encoding \<Rightarrow> buffer \<Rightarrow> formatter list \<Rightarrow> (error + buffer) option" where
  "format E self formatters =
     bindO (format1 E (self @ [0]) (int (length self)) formatters 0) (\<lambda>r. Some (Inr (fst r)))"

text \<open>The state of the loop after \<open>k\<close> passes, when each of them ends without an error.\<close>

fun format1_passes ::
  "nat \<Rightarrow> Encoding \<Rightarrow> buffer \<Rightarrow> int \<Rightarrow> formatter list \<Rightarrow> format_state
   \<Rightarrow> format_state option" where
  "format1_passes 0 E mem n formatters st = Some st"
| "format1_passes (Suc k) E mem n formatters st =
     (if fst st < n then
        (case format1_step E mem n formatters st of
           Some (Inr st') \<Rightarrow> format1_passes k E mem n formatters st'
         | _ \<Rightarrow> None)
      else None)"

text \<open>The loop stands at the opening brace of a replacement field, whose index is written
  out in digits (\<open>manual\<close>) or left out.\<close>

definition at_field :: "buffer \<Rightarrow> int \<Rightarrow> format_state \<Rightarrow> bool \<Rightarrow> bool" where
  "at_field mem n st manual =
     (fst st < n \<and> rd mem (fst st) = Inr 0x7B
      \<and> (case rd mem (fst st + 1) of
            Inl e \<Rightarrow> False
          | Inr c \<Rightarrow> c \<noteq> 0x7B \<and> is_digit (to_char c) = manual))"

text \<open>The two errors of the indexing rule, as \<^verbatim>\<open>format1\<close> throws them.\<close>

abbreviation (input) manual_to_automatic :: error where
  "manual_to_automatic \<equiv>
     invalid_argument ''format(): format - Switching from manual to automatic indexing''"

abbreviation (input) automatic_to_manual :: error where
  "automatic_to_manual \<equiv>
     invalid_argument ''format(): format - Switching from automatic to manual indexing''"

section \<open>Properties\<close>

subsection \<open>Codepoint iterators\<close>

text \<open>The UTF-8 iterator dereferences the encodings of the surrogates U+D800 and U+DFFF,
  overlong encodings of two, three and four bytes and the encoding of 0x110000 to negative
  values.\<close>

lemma utf8_deref_rejects_examples:
  "utf8_deref [0xED, 0xA0, 0x80] 0 = Inr (- 1)
   \<and> utf8_deref [0xED, 0xBF, 0xBF] 0 = Inr (- 1)
   \<and> utf8_deref [0xC1, 0x80] 0 = Inr (- 1)
   \<and> utf8_deref [0xC0, 0x80] 0 = Inr (- 192)
   \<and> utf8_deref [0xE0, 0x80, 0x80] 0 = Inr (- 1)
   \<and> utf8_deref [0xF0, 0x80, 0x80, 0x80] 0 = Inr (- 1)
   \<and> utf8_deref [0xF4, 0x90, 0x80, 0x80] 0 = Inr (- 1)"
  by (simp add: utf8_deref_def rd_def bindE_def ascii_def head_def head2_def head3_def
        head4_def tail_def)

text \<open>
  C4. The claim: for UTF-8, UTF-16 and UTF-32, dereferencing the iterator at a surrogate half,
  an overlong encoding or a codepoint above 0x10FFFF gives a negative value. The code does not
  do so for UTF-32 and UTF-16: the UTF-32 iterator tests the lowest bit of the unit instead of
  the surrogate range, so the odd surrogate half 0xD801 is returned as it is, and the UTF-16
  iterator returns a surrogate half that is not part of a pair as it is (a lone trailing half
  0xDC00, or a leading half 0xD800 followed by the letter A).
\<close>

theorem deref_surrogate_half_accepted:
  "deref UTF32 [0xD801] 0 = Inr 0xD801
   \<and> deref UTF16 [0xDC00] 0 = Inr 0xDC00
   \<and> deref UTF16 [0xD800, 0x41] 0 = Inr 0xD800"
  by (simp add: deref_def utf32_deref_def utf16_deref_def rd_def bindE_def
        is_surrogate_first_def is_surrogate_last_def)

subsection \<open>Search\<close>

lemma find_longer_sub:
  "length self < length sub \<Longrightarrow> find E self sub start end = Some (Inr 0)"
  by (simp add: find_def)

text \<open>
  C2. The claim: \<^verbatim>\<open>find\<close> returns the not-found value \<open>npos\<close> whenever there is no
  occurrence, in particular when \<open>sub\<close> is longer than the string. The code returns 0 when
  \<open>sub\<close> is longer than the string, while the search loop itself answers \<open>npos\<close> when it
  finds nothing.
\<close>

theorem find_longer_sub_returns_zero:
  "find Char8 (units ''ab'') (units ''abc'') 0 npos = Some (Inr 0)
   \<and> find UTF8 (units ''ab'') (units ''abc'') 0 npos = Some (Inr 0)
   \<and> find Char8 (units ''--'') (units ''ab'') 0 npos = Some (Inr npos)"
  by (simp add: find_def units_def find_loop.simps iter_ne_def compare_eq_def slice_def
        next_pos_def npos_def)

subsection \<open>Translation table\<close>

lemma store_nodes_vsize:
  "store_nodes E x y base is v = Inr v' \<Longrightarrow> vsize v' = vsize v"
proof (induction "is" arbitrary: v)
  case Nil
  then show ?case by simp
next
  case (Cons i rest)
  then show ?case
    by (auto simp: vec_store_def split: sum.splits if_splits)
qed

lemma maketrans_call_identity:
  assumes "maketrans E from to skip = Inr t"
  shows "Translation_call t c = Inr c"
proof -
  from assms obtain d where
    d: "store_nodes E from (\<lambda>i. bindE (rd to (int i)) (\<lambda>u. Inr (to_int32 E u))) 0
          [0..<length from] (reserve (length from + length skip) empty_vector) = Inr d"
    and t: "store_nodes E skip (\<lambda>i. Inr (- 1)) (length from) [0..<length skip] d = Inr t"
    by (auto simp: maketrans_def Translation_def Let_def split: sum.splits)
  have "vsize (reserve (length from + length skip) (empty_vector :: Node vector)) = 0"
    by (simp add: reserve_def empty_vector_def)
  with store_nodes_vsize[OF d] store_nodes_vsize[OF t] have "vsize t = 0"
    by simp
  then show ?thesis
    by (simp add: Translation_call_def)
qed

text \<open>
  C3. The claim: the table built by \<^verbatim>\<open>maketrans(from, to, skip)\<close> maps \<open>from[i]\<close> to
  \<open>to[i]\<close>, maps a unit of \<open>skip\<close> to -1 and leaves every other codepoint unchanged. In
  the code the constructor reserves the storage of the table and writes the nodes into it
  without ever giving the vector a size, so the lookup visits no node: the table built from
  \<open>a\<close>, \<open>b\<close> and the delete-set \<open>c\<close> returns \<open>a\<close> for \<open>a\<close> (not \<open>b\<close>) and \<open>c\<close>
  for \<open>c\<close> (not -1).
\<close>

theorem maketrans_table_maps_nothing:
  "bindE (maketrans Char8 (units ''a'') (units ''b'') (units ''c'')) (\<lambda>t. Translation_call t 97)
     = Inr 97
   \<and> bindE (maketrans Char8 (units ''a'') (units ''b'') (units ''c'')) (\<lambda>t. Translation_call t 99)
     = Inr 99"
  by (simp add: maketrans_def Translation_def reserve_def empty_vector_def vec_store_def rd_def
        units_def bindE_def Translation_call_def to_int32_def char_width_def)

subsection \<open>Split from the right\<close>

text \<open>
  C10. The claim: the whitespace form of \<^verbatim>\<open>rsplit\<close> reads only units inside the view,
  also when the string begins with whitespace. In the code the backward scan over a run of
  whitespace has no lower bound: on the two units space, \<open>a\<close> it steps in front of the view
  and reads there.
\<close>

theorem rsplit_leading_space_reads_before_view:
  "rsplit Char8 (units '' a'') npos = Inl OutOfBounds
   \<and> rsplit UTF8 (units '' a'') 1 = Inl OutOfBounds"
  by (simp add: rsplit_def units_def npos_def iter_ne_def rd_def is_space_def prev_pos_def
        utf8_prev_def bindE_def tail_def)


subsection \<open>Loops that do not advance\<close>

text \<open>
  \<^verbatim>\<open>UTF8Iterator::operator ++\<close> leaves the pointer where it is when a head byte is not
  followed by the tail bytes it announces. A loop that steps with it from such a position
  never ends: the model has no result there.
\<close>

lemma utf8_next_stuck: "next_pos UTF8 [0xC3, 0x41] 0 = Inr 0"
  by (simp add: next_pos_def utf8_next_def rd_def bindE_def head_def head2_def tail_def)

lemma iter_diff_stuck:
  assumes "right < left" and "next_pos E s right = Inr right"
  shows "iter_diff E s left right len = None"
proof (rule ccontr)
  assume "iter_diff E s left right len \<noteq> None"
  then obtain y where y: "iter_diff E s left right len = Some y" by auto
  have "\<not> (right < left \<and> next_pos E s right = Inr right)"
  proof (rule iter_diff.raw_induct
      [where P = "\<lambda>E s left right len y. \<not> (right < left \<and> next_pos E s right = Inr right)",
       OF _ y])
    fix f E s left right len y
    assume IH: "\<And>E s left right len y. f E s left right len = Some y
                  \<Longrightarrow> \<not> (right < left \<and> next_pos E s right = Inr right)"
      and body: "(if right < left
                  then case next_pos E s right of
                         Inl e \<Rightarrow> Some (Inl e)
                       | Inr right' \<Rightarrow> f E s left right' ((len + 1) mod 2 ^ 64)
                  else Some (Inr len)) = Some y"
    show "\<not> (right < left \<and> next_pos E s right = Inr right)"
    proof
      assume st: "right < left \<and> next_pos E s right = Inr right"
      with body have "f E s left right ((len + 1) mod 2 ^ 64) = Some y" by simp
      from IH[OF this] st show False by simp
    qed
  qed
  with assms show False by simp
qed

lemma split_loop_stuck:
  assumes "maxsplit \<noteq> 0" and "iter_ne E iter dn"
    and "compare_eq self iter sep = Inr False" and "next_pos E self iter = Inr iter"
  shows "split_loop E self sep dn maxsplit iter prev result = None"
proof (rule ccontr)
  assume "split_loop E self sep dn maxsplit iter prev result \<noteq> None"
  then obtain y where y: "split_loop E self sep dn maxsplit iter prev result = Some y"
    by auto
  have "\<not> (maxsplit \<noteq> 0 \<and> iter_ne E iter dn \<and> compare_eq self iter sep = Inr False
           \<and> next_pos E self iter = Inr iter)"
  proof (rule split_loop.raw_induct
      [where P = "\<lambda>E self sep dn maxsplit iter prev result y.
          \<not> (maxsplit \<noteq> 0 \<and> iter_ne E iter dn \<and> compare_eq self iter sep = Inr False
             \<and> next_pos E self iter = Inr iter)",
       OF _ y])
    fix f E self sep dn maxsplit iter prev result y
    assume IH: "\<And>E self sep dn maxsplit iter prev result y.
                  f E self sep dn maxsplit iter prev result = Some y
                  \<Longrightarrow> \<not> (maxsplit \<noteq> 0 \<and> iter_ne E iter dn
                         \<and> compare_eq self iter sep = Inr False
                         \<and> next_pos E self iter = Inr iter)"
      and body: "(if maxsplit \<noteq> 0 \<and> iter_ne E iter dn then
                    (case compare_eq self iter sep of
                       Inl e \<Rightarrow> Some (Inl e)
                     | Inr eq \<Rightarrow>
                         if eq then
                           f E self sep dn (maxsplit - 1)
                             (iter + int (length sep)) (iter + int (length sep))
                             (result @ [slice self prev iter])
                         else
                           (case next_pos E self iter of
                              Inl e \<Rightarrow> Some (Inl e)
                            | Inr iter' \<Rightarrow> f E self sep dn maxsplit iter' prev result))
                  else Some (Inr (result @ [slice self prev (int (length self))]))) = Some y"
    show "\<not> (maxsplit \<noteq> 0 \<and> iter_ne E iter dn \<and> compare_eq self iter sep = Inr False
             \<and> next_pos E self iter = Inr iter)"
    proof
      assume st: "maxsplit \<noteq> 0 \<and> iter_ne E iter dn \<and> compare_eq self iter sep = Inr False
                  \<and> next_pos E self iter = Inr iter"
      with body have "f E self sep dn maxsplit iter prev result = Some y" by simp
      from IH[OF this] st show False by simp
    qed
  qed
  with assms show False by simp
qed

lemma quote_loop_stuck:
  assumes "iter_ne From iter (int (length self))" and "deref From self iter = Inr cp"
    and "next_pos From self iter = Inr iter"
  shows "quote_loop Ascii From To self iter result = None"
proof (rule ccontr)
  assume "quote_loop Ascii From To self iter result \<noteq> None"
  then obtain y where y: "quote_loop Ascii From To self iter result = Some y"
    by auto
  have "\<not> (iter_ne From iter (int (length self)) \<and> (\<exists>cp. deref From self iter = Inr cp)
           \<and> next_pos From self iter = Inr iter)"
  proof (rule quote_loop.raw_induct
      [where P = "\<lambda>Ascii From To self iter result y.
          \<not> (iter_ne From iter (int (length self)) \<and> (\<exists>cp. deref From self iter = Inr cp)
             \<and> next_pos From self iter = Inr iter)",
       OF _ y])
    fix f Ascii From To self iter result y
    assume IH: "\<And>Ascii From To self iter result y.
                  f Ascii From To self iter result = Some y
                  \<Longrightarrow> \<not> (iter_ne From iter (int (length self))
                         \<and> (\<exists>cp. deref From self iter = Inr cp)
                         \<and> next_pos From self iter = Inr iter)"
      and body: "(if iter_ne From iter (int (length self)) then
                    (case deref From self iter of
                       Inl e \<Rightarrow> Some (Inl e)
                     | Inr cp \<Rightarrow>
                         (case next_pos From self iter of
                            Inl e \<Rightarrow> Some (Inl e)
                          | Inr iter' \<Rightarrow>
                              f Ascii From To self iter'
                                (quote_char Ascii To (char_width To) result (u32 cp))))
                  else Some (Inr (push_char (char_width To) result 0x22))) = Some y"
    show "\<not> (iter_ne From iter (int (length self)) \<and> (\<exists>cp. deref From self iter = Inr cp)
             \<and> next_pos From self iter = Inr iter)"
    proof
      assume st: "iter_ne From iter (int (length self))
                  \<and> (\<exists>cp. deref From self iter = Inr cp)
                  \<and> next_pos From self iter = Inr iter"
      then obtain cp where "deref From self iter = Inr cp" by auto
      with st body have "f Ascii From To self iter
          (quote_char Ascii To (char_width To) result (u32 cp)) = Some y" by simp
      from IH[OF this] st show False by simp
    qed
  qed
  with assms show False by blast
qed

subsection \<open>Transcoding\<close>

lemma transcode_output_untouched:
  assumes "From \<noteq> To" and "transcode From To input output mode = Some (Inr (input', output'))"
  shows "output' = output"
  using assms by (auto simp: transcode_def bindO_def split: option.splits sum.splits)

text \<open>
  C1. The claim: for two different encodings \<^verbatim>\<open>transcode(input, output, mode)\<close> writes the
  converted sequence into \<open>output\<close> and leaves \<open>input\<close> unchanged; under \<open>Replace\<close> every
  failure is replaced by the replacement codepoint of the destination, and under \<open>Ignore\<close>
  exactly the offending codepoints are dropped. In the code the overload for two different
  encodings passes \<open>input\<close> to the encoder in all three modes: the encoded units are appended
  to the input string and the output string is never written. Under \<open>Ignore\<close> it also
  drops the codepoint 0, which decoded without a failure.
\<close>

theorem transcode_appends_to_input:
  "transcode Char8 UTF8 (units ''a'') [] Replace = Some (Inr (units ''aa'', []))
   \<and> transcode Char8 UTF8 (units ''a'') [] Strict = Some (Inr (units ''aa'', []))
   \<and> transcode Char8 UTF8 [0x61, 0, 0x62] [] Ignore
       = Some (Inr ([0x61, 0, 0x62, 0x61, 0x62], []))"
  by (simp add: transcode_def transcode_loop.simps bindO_def iter_ne_def deref_def rd_def
        bindE_def to_int32_def char_width_def transcode_step_def append_def utf8_append_def
        push_char_def u32_def next_pos_def units_def)

subsection \<open>Quoting\<close>

text \<open>
  The switch of the quote path has no \<^verbatim>\<open>continue\<close> after the case of the codepoint 0:
  wherever the iterator of the source encoding dereferences to 0 and steps on, the scan emits
  the two units of \<^verbatim>\<open>\0\<close> immediately followed by the two units of \<^verbatim>\<open>\a\<close> and goes on
  from the next position.
\<close>

lemma quote_loop_null_falls_through:
  assumes "iter_ne From iter (int (length self))"
    and "deref From self iter = Inr 0"
    and "next_pos From self iter = Inr iter'"
  shows "quote_loop Ascii From To self iter result
         = quote_loop Ascii From To self iter' (result @ [0x5C, 0x30, 0x5C, 0x61])"
  using assms
  by (subst quote_loop.simps) (simp add: quote_char_def push_char_def u32_def)

lemma quote_null_utf8:
  "quote False UTF8 UTF8 [0x61, 0, 0x62]
   = Some (Inr [0x22, 0x61, 0x5C, 0x30, 0x5C, 0x61, 0x62, 0x22])"
  by (simp add: quote_def quote_loop.simps iter_ne_def deref_def utf8_deref_def ascii_def rd_def
        bindE_def next_pos_def utf8_next_def head_def quote_char_def u32_def push_char_def
        char_width_def append_def utf8_append_def)

lemma quote_null_utf16:
  "quote False UTF16 UTF8 [0x61, 0, 0x62]
   = Some (Inr [0x22, 0x61, 0x5C, 0x30, 0x5C, 0x61, 0x62, 0x22])"
  by (simp add: quote_def quote_loop.simps iter_ne_def deref_def utf16_deref_def rd_def
        bindE_def next_pos_def utf16_next_def is_surrogate_first_def is_surrogate_last_def
        quote_char_def u32_def push_char_def char_width_def append_def utf8_append_def)

lemma quote_null_plain_units:
  "quote False Char8 UTF8 [0x61, 0, 0x62]
   = Some (Inr [0x22, 0x61, 0x5C, 0x30, 0x5C, 0x61, 0x62, 0x22])"
  "quote False Char16 UTF8 [0x61, 0, 0x62]
   = Some (Inr [0x22, 0x61, 0x5C, 0x30, 0x5C, 0x61, 0x62, 0x22])"
  "quote False Char32 UTF8 [0x61, 0, 0x62]
   = Some (Inr [0x22, 0x61, 0x5C, 0x30, 0x5C, 0x61, 0x62, 0x22])"
  by (simp_all add: quote_def quote_loop.simps iter_ne_def deref_def rd_def to_int32_def
        bindE_def next_pos_def quote_char_def u32_def push_char_def
        char_width_def append_def utf8_append_def)

lemma quote_malformed_utf8_does_not_return: "quote False UTF8 UTF8 [0xC3, 0] = None"
proof -
  have "deref UTF8 [0xC3, 0] 0 = Inr (- 195)"
    by (simp add: deref_def utf8_deref_def rd_def bindE_def ascii_def head_def head2_def
          tail_def)
  moreover have "next_pos UTF8 [0xC3, 0] 0 = Inr 0"
    by (simp add: next_pos_def utf8_next_def rd_def bindE_def head_def head2_def tail_def)
  moreover have "iter_ne UTF8 0 (int (length [0xC3, 0 :: nat]))"
    by (simp add: iter_ne_def)
  ultimately show ?thesis
    unfolding quote_def by (rule quote_loop_stuck[rotated])
qed

text \<open>
  C9. The quote path does not emit \<^verbatim>\<open>\0\a\<close> for every null character of its input. For the
  UTF-32 string that consists of the one unit 0 it emits, between the quotation marks, a
  question mark in ASCII mode and the three bytes of the replacement character otherwise: the
  UTF-32 iterator dereferences the unit 0 to -1 (its validity test is \<^verbatim>\<open>*ptr & 1\<close>), so the
  switch of the quote path never sees the codepoint 0.
\<close>

theorem quote_null_utf32_not_escaped:
  "deref UTF32 [0] 0 = Inr (- 1)
   \<and> quote True UTF32 UTF8 [0] = Some (Inr [0x22, 0x3F, 0x22])
   \<and> quote False UTF32 UTF8 [0] = Some (Inr [0x22, 0xEF, 0xBF, 0xBD, 0x22])"
  by (simp add: quote_def quote_loop.simps iter_ne_def deref_def utf32_deref_def rd_def bindE_def
        next_pos_def quote_char_def u32_def push_char_def char_width_def append_def
        utf8_append_def replacement_def)

subsection \<open>Split and join\<close>

text \<open>Whenever the separator form of \<^verbatim>\<open>split\<close> returns a list, joining the list with
  the separator gives the string back.\<close>

lemma next_pos_ge: "next_pos E s p = Inr q \<Longrightarrow> p \<le> q"
  by (cases E)
     (auto simp: next_pos_def utf8_next_def utf16_next_def bindE_def
           split: sum.splits if_splits)

lemma join_copy_False:
  "join_copy sep False items data = data @ concat (map (\<lambda>i. sep @ i) items)"
  by (induction items arbitrary: data) simp_all

lemma concat_sep_shift:
  "concat (map (\<lambda>i. sep @ i) rs) @ sep = sep @ concat (map (\<lambda>p. p @ sep) rs)"
  by (induction rs) simp_all

lemma join_snoc:
  "join sep (result @ [l]) = concat (map (\<lambda>p. p @ sep) result) @ l"
proof (cases result)
  case Nil
  then show ?thesis by (simp add: join_def)
next
  case (Cons r rs)
  have "join sep (result @ [l]) = r @ (concat (map (\<lambda>i. sep @ i) rs) @ sep) @ l"
    by (simp add: Cons join_def join_copy_False)
  also have "\<dots> = r @ (sep @ concat (map (\<lambda>p. p @ sep) rs)) @ l"
    by (simp only: concat_sep_shift)
  finally show ?thesis by (simp add: Cons)
qed

lemma slice_to_end: "0 \<le> a \<Longrightarrow> slice s a (int (length s)) = drop (nat a) s"
  by (simp add: slice_def)

lemma take_slice: "0 \<le> a \<Longrightarrow> a \<le> b \<Longrightarrow> take (nat a) s @ slice s a b = take (nat b) s"
proof -
  assume a: "0 \<le> a" "a \<le> b"
  then have "nat b = nat a + nat (b - a)" by simp
  then show ?thesis
    by (simp add: slice_def take_add)
qed

lemma split_loop_join:
  assumes "split_loop E self sep dn maxsplit iter prev result = Some y"
  shows "y = Inr parts \<Longrightarrow> sep \<noteq> [] \<Longrightarrow> 0 \<le> prev \<Longrightarrow> prev \<le> iter
         \<Longrightarrow> concat (map (\<lambda>p. p @ sep) result) = take (nat prev) self
         \<Longrightarrow> join sep parts = self"
proof -
  have "\<forall>parts. y = Inr parts \<longrightarrow> sep \<noteq> [] \<longrightarrow> 0 \<le> prev \<longrightarrow> prev \<le> iter
         \<longrightarrow> concat (map (\<lambda>p. p @ sep) result) = take (nat prev) self
         \<longrightarrow> join sep parts = self"
  proof (rule split_loop.raw_induct
      [where P = "\<lambda>E self sep dn maxsplit iter prev result y.
         \<forall>parts. y = Inr parts \<longrightarrow> sep \<noteq> [] \<longrightarrow> 0 \<le> prev \<longrightarrow> prev \<le> iter
         \<longrightarrow> concat (map (\<lambda>p. p @ sep) result) = take (nat prev) self
         \<longrightarrow> join sep parts = self",
       OF _ assms])
    fix f E self sep dn maxsplit iter prev result y
    assume IH: "\<And>E self sep dn maxsplit iter prev result y.
                  f E self sep dn maxsplit iter prev result = Some y
                  \<Longrightarrow> \<forall>parts. y = Inr parts \<longrightarrow> sep \<noteq> [] \<longrightarrow> 0 \<le> prev \<longrightarrow> prev \<le> iter
                      \<longrightarrow> concat (map (\<lambda>p. p @ sep) result) = take (nat prev) self
                      \<longrightarrow> join sep parts = self"
      and body: "(if maxsplit \<noteq> 0 \<and> iter_ne E iter dn then
                    (case compare_eq self iter sep of
                       Inl e \<Rightarrow> Some (Inl e)
                     | Inr eq \<Rightarrow>
                         if eq then
                           f E self sep dn (maxsplit - 1)
                             (iter + int (length sep)) (iter + int (length sep))
                             (result @ [slice self prev iter])
                         else
                           (case next_pos E self iter of
                              Inl e \<Rightarrow> Some (Inl e)
                            | Inr iter' \<Rightarrow> f E self sep dn maxsplit iter' prev result))
                  else Some (Inr (result @ [slice self prev (int (length self))]))) = Some y"
    show "\<forall>parts. y = Inr parts \<longrightarrow> sep \<noteq> [] \<longrightarrow> 0 \<le> prev \<longrightarrow> prev \<le> iter
           \<longrightarrow> concat (map (\<lambda>p. p @ sep) result) = take (nat prev) self
           \<longrightarrow> join sep parts = self"
    proof (intro allI impI)
      fix parts
      assume y: "y = Inr parts" and sep: "sep \<noteq> []" and p0: "0 \<le> prev" and pi: "prev \<le> iter"
        and inv: "concat (map (\<lambda>p. p @ sep) result) = take (nat prev) self"
      show "join sep parts = self"
      proof (cases "maxsplit \<noteq> 0 \<and> iter_ne E iter dn")
        case False
        with body y have "parts = result @ [slice self prev (int (length self))]" by auto
        then show ?thesis
          using inv p0 by (simp add: join_snoc slice_to_end)
      next
        case True
        note loop = this
        show ?thesis
        proof (cases "compare_eq self iter sep")
          case (Inl e)
          with loop body y show ?thesis by simp
        next
          case (Inr eq)
          show ?thesis
          proof (cases eq)
            case True
            with Inr sep have bounds: "0 \<le> iter" "iter + int (length sep) \<le> int (length self)"
              and m: "slice self iter (iter + int (length sep)) = sep"
              by (auto simp: compare_eq_def split: if_splits)
            from loop Inr True body have call:
              "f E self sep dn (maxsplit - 1) (iter + int (length sep)) (iter + int (length sep))
                 (result @ [slice self prev iter]) = Some y" by simp
            have inv': "concat (map (\<lambda>p. p @ sep) (result @ [slice self prev iter]))
                           = take (nat (iter + int (length sep))) self"
            proof -
              have "concat (map (\<lambda>p. p @ sep) (result @ [slice self prev iter]))
                    = (take (nat prev) self @ slice self prev iter) @ sep"
                by (simp add: inv)
              also have "\<dots> = take (nat iter) self @ slice self iter (iter + int (length sep))"
                using p0 pi by (simp only: take_slice m)
              also have "\<dots> = take (nat (iter + int (length sep))) self"
                using bounds by (intro take_slice) simp_all
              finally show ?thesis .
            qed
            have "0 \<le> iter + int (length sep)"
              using bounds by simp
            with IH[OF call] y sep inv' show ?thesis
              by blast
          next
            case False
            show ?thesis
            proof (cases "next_pos E self iter")
              case (Inl e)
              with loop Inr False body y show ?thesis by simp
            next
              case (Inr iter')
              with loop \<open>compare_eq self iter sep = Inr eq\<close> False body
              have call: "f E self sep dn maxsplit iter' prev result = Some y" by simp
              from Inr have "iter \<le> iter'" by (rule next_pos_ge)
              with pi have "prev \<le> iter'" by simp
              with IH[OF call] y sep p0 inv show ?thesis
                by blast
            qed
          qed
        qed
      qed
    qed
  qed
  then show "y = Inr parts \<Longrightarrow> sep \<noteq> [] \<Longrightarrow> 0 \<le> prev \<Longrightarrow> prev \<le> iter
         \<Longrightarrow> concat (map (\<lambda>p. p @ sep) result) = take (nat prev) self
         \<Longrightarrow> join sep parts = self"
    by blast
qed

lemma split_join_if_returns:
  assumes "split E self sep maxsplit = Some (Inr parts)"
  shows "join sep parts = self"
proof -
  from assms have sep: "sep \<noteq> []"
    by (auto simp: split_def split: if_splits)
  with assms have "split_loop E self sep (int (length self) - int (length sep) + 1)
             (if length self < length sep then 0 else maxsplit) 0 0 [] = Some (Inr parts)"
    by (simp add: split_def)
  from split_loop_join[OF this refl sep] show ?thesis by simp
qed


text \<open>Under UTF-8 the call returns, and the round trip holds, for every string without a
  head byte (a byte above 0xC0), so for every ASCII string.\<close>

lemma next_pos_utf8_no_head:
  assumes "0 \<le> iter" and "iter < int (length s)" and "\<not> head (s ! nat iter)"
  shows "next_pos UTF8 s iter = Inr (iter + 1)"
  using assms by (simp add: next_pos_def utf8_next_def rd_def bindE_def)

lemma compare_eq_in_bounds:
  assumes "0 \<le> iter" and "iter + int (length sep) \<le> int (length s)"
  shows "\<exists>b. compare_eq s iter sep = Inr b"
  using assms by (auto simp: compare_eq_def)

lemma split_loop_returns_no_head:
  assumes "\<forall>u \<in> set self. \<not> head u" and "sep \<noteq> []" and "0 \<le> iter"
  shows "\<exists>parts. split_loop UTF8 self sep (int (length self) - int (length sep) + 1)
                  maxsplit iter prev result = Some (Inr parts)"
  using assms(3)
proof (induction "nat (int (length self) - int (length sep) + 1 - iter)"
         arbitrary: iter maxsplit prev result rule: less_induct)
  case less
  let ?dn = "int (length self) - int (length sep) + 1"
  show ?case
  proof (cases "maxsplit \<noteq> 0 \<and> iter_ne UTF8 iter ?dn")
    case False
    then show ?thesis
      by (subst split_loop.simps) auto
  next
    case True
    then have lt: "iter < ?dn" by (simp add: iter_ne_def)
    with less.prems have inb: "iter + int (length sep) \<le> int (length self)" by simp
    from compare_eq_in_bounds[OF less.prems inb] obtain b where
      cmp: "compare_eq self iter sep = Inr b" by blast
    show ?thesis
    proof (cases b)
      case True
      from assms(2) have "0 < int (length sep)" by simp
      with lt have "nat (?dn - (iter + int (length sep))) < nat (?dn - iter)" by simp
      moreover have "0 \<le> iter + int (length sep)" using less.prems by simp
      ultimately obtain parts where
        "split_loop UTF8 self sep ?dn (maxsplit - 1) (iter + int (length sep))
           (iter + int (length sep)) (result @ [slice self prev iter]) = Some (Inr parts)"
        using less.hyps by blast
      with \<open>maxsplit \<noteq> 0 \<and> iter_ne UTF8 iter ?dn\<close> cmp True show ?thesis
        by (subst split_loop.simps) simp
    next
      case False
      from assms(2) inb have "iter < int (length self)"
        by (cases sep) simp_all
      moreover from this less.prems assms(1) have "\<not> head (self ! nat iter)"
        by simp
      ultimately have nx: "next_pos UTF8 self iter = Inr (iter + 1)"
        using less.prems by (intro next_pos_utf8_no_head)
      from lt have "nat (?dn - (iter + 1)) < nat (?dn - iter)" by simp
      moreover have "0 \<le> iter + 1" using less.prems by simp
      ultimately obtain parts where
        "split_loop UTF8 self sep ?dn maxsplit (iter + 1) prev result = Some (Inr parts)"
        using less.hyps by blast
      with \<open>maxsplit \<noteq> 0 \<and> iter_ne UTF8 iter ?dn\<close> cmp False nx show ?thesis
        by (subst split_loop.simps) simp
    qed
  qed
qed


lemma split_join_roundtrip_no_head:
  assumes "\<forall>u \<in> set self. \<not> head u" and "sep \<noteq> []"
  shows "\<exists>parts. split UTF8 self sep maxsplit = Some (Inr parts) \<and> join sep parts = self"
proof -
  have "0 \<le> (0 :: int)" by simp
  from split_loop_returns_no_head[OF assms this] obtain parts where
    "split_loop UTF8 self sep (int (length self) - int (length sep) + 1)
       (if length self < length sep then 0 else maxsplit) 0 0 [] = Some (Inr parts)"
    by blast
  with assms(2) have "split UTF8 self sep maxsplit = Some (Inr parts)"
    by (simp add: split_def)
  with split_join_if_returns[OF this] show ?thesis by blast
qed

text \<open>
  C5. The claim: for every string and every non-empty separator, joining the list that
  \<^verbatim>\<open>split\<close> returns (with no bound on the number of splits) reconstructs the string.
  The code does not return a list for every string. Under UTF-8, the default encoding of
  \<^verbatim>\<open>char\<close> strings, the scan for the separator steps with
  \<^verbatim>\<open>UTF8Iterator::operator ++\<close>, which does not move at a head byte that is not followed by
  a tail byte: on the two bytes C3 41 the call never returns. Under an encoding whose iterator
  is a plain pointer the loop ends only when the pointer is equal to the last start of a
  match; after a match at the very end of the string the pointer is past it, and the
  comparison reads behind the string (\<open>a--\<close> split at \<open>--\<close>).
\<close>

theorem split_does_not_return:
  "split UTF8 [0xC3, 0x41] (units ''x'') npos = None
   \<and> split Char8 (units ''a--'') (units ''--'') npos = Some (Inl OutOfBounds)"
proof
  show "split UTF8 [0xC3, 0x41] (units ''x'') npos = None"
    by (simp add: split_def units_def npos_def split_loop_stuck iter_ne_def compare_eq_def
          slice_def utf8_next_stuck)
  show "split Char8 (units ''a--'') (units ''--'') npos = Some (Inl OutOfBounds)"
    by (simp add: split_def units_def npos_def split_loop.simps iter_ne_def compare_eq_def
          slice_def next_pos_def)
qed

subsection \<open>Alignment\<close>

lemmas iter_defs = next_pos_def utf8_next_def rd_def bindE_def head_def head2_def head3_def
  head4_def tail_def iter_ne_def

lemma align_noop:
  assumes "length_cp E f = Some (Inr 1)" and "length_cp E s = Some (Inr n)" and "w \<le> n"
  shows "center E s w f = Some (Inr s)" and "ljust E s w f = Some (Inr s)"
    and "rjust E s w f = Some (Inr s)"
  using assms by (simp_all add: center_def ljust_def rjust_def bindO_def)

lemma align_bad_fill:
  assumes "length_cp E f = Some (Inr k)" and "k \<noteq> 1"
  shows "center E s w f = Some (Inl (invalid_argument ''center(): fillchar''))"
    and "ljust E s w f = Some (Inl (invalid_argument ''ljust(): fillchar''))"
    and "rjust E s w f = Some (Inl (invalid_argument ''rjust(): fillchar''))"
  using assms by (simp_all add: center_def ljust_def rjust_def bindO_def)

lemma length_cp_fill_emoji: "length_cp UTF8 [0xF0, 0x9F, 0x98, 0x80] = Some (Inr 1)"
  by (simp add: length_cp_def iter_diff.simps iter_defs)

lemma length_cp_abc: "length_cp UTF8 (units ''abc'') = Some (Inr 3)"
  by (simp add: length_cp_def iter_diff.simps iter_defs units_def)

lemma length_cp_ab: "length_cp UTF8 (units ''ab'') = Some (Inr 2)"
  by (simp add: length_cp_def iter_diff.simps iter_defs units_def)


lemma center_malformed_fill_does_not_return:
  "center UTF8 (units ''abc'') 8 [0xC3, 0x41] = None"
  by (simp add: center_def length_cp_def iter_diff_stuck utf8_next_stuck bindO_def)

text \<open>
  C8, as stated: \<^verbatim>\<open>center\<close>, \<^verbatim>\<open>ljust\<close> and \<^verbatim>\<open>rjust\<close> return the string
  unchanged when the width does not exceed its length, and a fill token that does not decode
  to exactly one codepoint makes the call fail. The code counts the steps of the iterator over
  the fill token and does not decode it: the single byte FF, which the UTF-8 iterator
  dereferences to the error value -255, is one step and is accepted as a fill token.
\<close>

theorem center_accepts_undecodable_fill:
  "deref UTF8 [0xFF] 0 = Inr (- 255) \<and> center UTF8 [] 1 [0xFF] = Some (Inr [0xFF])"
  by (simp add: deref_def utf8_deref_def ascii_def center_def length_cp_def iter_diff.simps iter_defs bindO_def)


text \<open>
  C8, amended: when the fill token is one iterator step long and the width does not exceed the
  length of the string in iterator steps, \<^verbatim>\<open>center\<close>, \<^verbatim>\<open>ljust\<close> and
  \<^verbatim>\<open>rjust\<close> return the string unchanged; when the length of the fill token in iterator
  steps is a number other than one, each of them fails with its argument error.
\<close>

theorem justify_noop_and_fill_check:
  "(length_cp E f = Some (Inr 1) \<and> length_cp E s = Some (Inr n) \<and> w \<le> n \<longrightarrow>
      center E s w f = Some (Inr s) \<and> ljust E s w f = Some (Inr s)
      \<and> rjust E s w f = Some (Inr s))
   \<and> (length_cp E f = Some (Inr k) \<and> k \<noteq> 1 \<longrightarrow>
      center E s w f = Some (Inl (invalid_argument ''center(): fillchar''))
      \<and> ljust E s w f = Some (Inl (invalid_argument ''ljust(): fillchar''))
      \<and> rjust E s w f = Some (Inl (invalid_argument ''rjust(): fillchar'')))"
  by (auto simp: center_def ljust_def rjust_def bindO_def)

theorem justify_noop_and_fill_check_witness:
  "length_cp UTF8 [0xF0, 0x9F, 0x98, 0x80] = Some (Inr 1)
   \<and> length_cp UTF8 (units ''abc'') = Some (Inr 3) \<and> (2 :: nat) \<le> 3
   \<and> center UTF8 (units ''abc'') 2 [0xF0, 0x9F, 0x98, 0x80] = Some (Inr (units ''abc''))
   \<and> ljust UTF8 (units ''abc'') 2 [0xF0, 0x9F, 0x98, 0x80] = Some (Inr (units ''abc''))
   \<and> rjust UTF8 (units ''abc'') 2 [0xF0, 0x9F, 0x98, 0x80] = Some (Inr (units ''abc''))
   \<and> length_cp UTF8 (units ''ab'') = Some (Inr 2) \<and> (2 :: nat) \<noteq> 1
   \<and> center UTF8 (units ''abc'') 2 (units ''ab'')
       = Some (Inl (invalid_argument ''center(): fillchar''))
   \<and> ljust UTF8 (units ''abc'') 2 (units ''ab'')
       = Some (Inl (invalid_argument ''ljust(): fillchar''))
   \<and> rjust UTF8 (units ''abc'') 2 (units ''ab'')
       = Some (Inl (invalid_argument ''rjust(): fillchar''))"
  using justify_noop_and_fill_check
          [of UTF8 "[0xF0, 0x9F, 0x98, 0x80]" "units ''abc''" 3 2 2]
        justify_noop_and_fill_check [of UTF8 "units ''ab''" "units ''abc''" 3 2 2]
        length_cp_fill_emoji length_cp_abc length_cp_ab
  by simp


subsection \<open>Formatting an integer\<close>

text \<open>
  The two templates of the repository's test, formatted with the argument 42 under UTF-8. The
  memory behind the literal arrays is the parameter \<open>after\<close>.
\<close>

lemma replicate_numeral: "replicate (numeral k) x = x # replicate (pred_numeral k) x"
  by (simp add: numeral_eq_Suc)

lemmas spec_defs = Specifier_def parse_fill_align_def parse_sign_def parse_alter_def
  parse_zero_def parse_width_def parse_comma_def parse_precision_def parse_type_def at_is_def
  default_Specifier_def is_align_def is_sign_def is_digit_def is_alpha_def to_int32_def
  char_width_def slice_def

lemmas field_defs = format_field_def field_rest_def field_index_def field_conv_def
  field_spec_def rd_def bindE_def bindO_def is_digit_def to_char_def npos_def

lemma Specifier_zero_pad:
  assumes "string_literal after 0x30 = Inr fill"
  shows "Specifier UTF8 after [0x7B, 0x3A, 0x3D, 0x2B, 0x30, 0x36, 0x7D, 0] 2 6 =
    Inr \<lparr>spec_type = 0, spec_sign = 0x2B, spec_align = 0x3D, spec_alter = False,
         spec_comma = False, spec_width = 6, spec_precision = npos, spec_fill = fill,
         spec_other = []\<rparr>"
  using assms by (simp add: spec_defs iter_defs)

lemma int64_format_zero_pad:
  "int64_format UTF8 after 42
     \<lparr>spec_type = 0, spec_sign = 0x2B, spec_align = 0x3D, spec_alter = False,
      spec_comma = False, spec_width = 6, spec_precision = npos, spec_fill = c # fill,
      spec_other = []\<rparr>
   = Some (Inr ([0x2B] @ (c # fill) @ (c # fill) @ (c # fill) @ [0x34, 0x32]))"
  by (simp add: int64_format_def npos_def magnitude_def digit_char_def char_width_def
        replicate_numeral)

lemma scan_spec_zero_pad:
  "scan_spec UTF8 [0x7B, 0x3A, 0x3D, 0x2B, 0x30, 0x36, 0x7D, 0] 7 2 1 = Some (Inr (6, 0))"
  by (simp add: scan_spec.simps iter_defs)

lemma format_zero_pad_by_fill:
  assumes "string_literal after 0x30 = Inr fill"
  shows "format UTF8 [0x7B, 0x3A, 0x3D, 0x2B, 0x30, 0x36, 0x7D] [formatter_int64 UTF8 after 42]
         = Some (Inr ([0x2B] @ fill @ fill @ fill @ [0x34, 0x32]))"
proof -
  obtain c rest where fill: "fill = c # rest"
    using assms by (auto simp: string_literal_def split: if_splits)
  have fld: "format_field UTF8 [0x7B, 0x3A, 0x3D, 0x2B, 0x30, 0x36, 0x7D, 0] 7
               [formatter_int64 UTF8 after 42] 1 0 []
             = Some (Inr (7, 1, [0x2B] @ fill @ fill @ fill @ [0x34, 0x32]))"
    using scan_spec_zero_pad Specifier_zero_pad[OF assms]
          int64_format_zero_pad[of after c rest]
    by (simp add: field_defs formatter_int64_def fill)
  have step: "format1_step UTF8 [0x7B, 0x3A, 0x3D, 0x2B, 0x30, 0x36, 0x7D, 0] 7
                [formatter_int64 UTF8 after 42] (0, 0, 0, [])
              = Some (Inr (7, 7, 1, [0x2B] @ fill @ fill @ fill @ [0x34, 0x32]))"
    using fld by (simp add: format1_step_def rd_def slice_def)
  show ?thesis
    using step
    by (simp add: format_def format1_def format1_loop.simps bindO_def slice_def)
qed

lemma format_zero_pad_terminated:
  assumes "string_literal after 0x30 = Inr [0x30]"
  shows "format UTF8 (units ''{:=+06}'') [formatter_int64 UTF8 after 42]
         = Some (Inr (units ''+00042''))"
  using format_zero_pad_by_fill[OF assms] by (simp add: units_def)

lemma format_zero_pad_iff_terminated:
  assumes "string_literal after 0x30 = Inr fill"
  shows "format UTF8 (units ''{:=+06}'') [formatter_int64 UTF8 after 42]
           = Some (Inr (units ''+00042''))
         \<longleftrightarrow> fill = [0x30]"
proof
  assume "fill = [0x30]"
  thus "format UTF8 (units ''{:=+06}'') [formatter_int64 UTF8 after 42]
        = Some (Inr (units ''+00042''))"
    using format_zero_pad_terminated assms by simp
next
  assume r: "format UTF8 (units ''{:=+06}'') [formatter_int64 UTF8 after 42]
             = Some (Inr (units ''+00042''))"
  have "[0x2B] @ fill @ fill @ fill @ [0x34, 0x32] = units ''+00042''"
    using r format_zero_pad_by_fill[OF assms] by (simp add: units_def)
  hence "length ([0x2B] @ fill @ fill @ fill @ [0x34, 0x32 :: nat]) = length (units ''+00042'')"
    by (rule arg_cong)
  hence len: "length fill = 1"
    by (simp add: units_def)
  moreover have "hd fill = 0x30"
    using assms by (auto simp: string_literal_def split: if_splits)
  ultimately show "fill = [0x30]"
    by (cases fill) auto
qed

lemma format_zero_pad_literal_unterminated:
  assumes "0 \<notin> set (after 0x30)"
  shows "format UTF8 (units ''{:=+06}'') [formatter_int64 UTF8 after 42]
         = Some (Inl OutOfBounds)"
proof -
  have lit: "string_literal after 0x30 = Inl OutOfBounds"
    using assms by (simp add: string_literal_def)
  have spec: "Specifier UTF8 after [0x7B, 0x3A, 0x3D, 0x2B, 0x30, 0x36, 0x7D, 0] 2 6
              = Inl OutOfBounds"
    using lit by (simp add: spec_defs iter_defs)
  have fld: "format_field UTF8 [0x7B, 0x3A, 0x3D, 0x2B, 0x30, 0x36, 0x7D, 0] 7
               [formatter_int64 UTF8 after 42] 1 0 [] = Some (Inl OutOfBounds)"
    using scan_spec_zero_pad spec by (simp add: field_defs formatter_int64_def)
  have step: "format1_step UTF8 [0x7B, 0x3A, 0x3D, 0x2B, 0x30, 0x36, 0x7D, 0] 7
                [formatter_int64 UTF8 after 42] (0, 0, 0, []) = Some (Inl OutOfBounds)"
    using fld by (simp add: format1_step_def rd_def slice_def)
  show ?thesis
    using step
    by (simp add: format_def format1_def format1_loop.simps bindO_def units_def)
qed

lemma Specifier_emoji_fill:
  "Specifier UTF8 after [0x7B, 0x3A, 0xF0, 0x9F, 0x98, 0x80, 0x5E, 0x2B, 0x30, 0x36, 0x7D, 0]
     2 10 =
    Inr \<lparr>spec_type = 0, spec_sign = 0x2B, spec_align = 0x5E, spec_alter = False,
         spec_comma = False, spec_width = 6, spec_precision = npos,
         spec_fill = [0xF0, 0x9F, 0x98, 0x80], spec_other = []\<rparr>"
  by (simp add: spec_defs iter_defs)

lemma length_cp_plus42: "length_cp UTF8 [0x2B, 0x34, 0x32] = Some (Inr 3)"
  by (simp add: length_cp_def iter_diff.simps iter_defs)

lemma int64_format_emoji_fill:
  "int64_format UTF8 after 42
     \<lparr>spec_type = 0, spec_sign = 0x2B, spec_align = 0x5E, spec_alter = False,
      spec_comma = False, spec_width = 6, spec_precision = npos,
      spec_fill = [0xF0, 0x9F, 0x98, 0x80], spec_other = []\<rparr>
   = Some (Inr [0xF0, 0x9F, 0x98, 0x80, 0x2B, 0x34, 0x32, 0xF0, 0x9F, 0x98, 0x80,
                0xF0, 0x9F, 0x98, 0x80])"
  by (simp add: int64_format_def npos_def magnitude_def digit_char_def char_width_def
        center_def bindO_def length_cp_fill_emoji length_cp_plus42 replicate_numeral)

lemma scan_spec_emoji_fill:
  "scan_spec UTF8 [0x7B, 0x3A, 0xF0, 0x9F, 0x98, 0x80, 0x5E, 0x2B, 0x30, 0x36, 0x7D, 0] 11 2 1
   = Some (Inr (10, 0))"
  by (simp add: scan_spec.simps iter_defs)

lemma format_emoji_fill:
  "format UTF8 [0x7B, 0x3A, 0xF0, 0x9F, 0x98, 0x80, 0x5E, 0x2B, 0x30, 0x36, 0x7D]
     [formatter_int64 UTF8 after 42]
   = Some (Inr [0xF0, 0x9F, 0x98, 0x80, 0x2B, 0x34, 0x32, 0xF0, 0x9F, 0x98, 0x80,
                0xF0, 0x9F, 0x98, 0x80])"
proof -
  have fld: "format_field UTF8
               [0x7B, 0x3A, 0xF0, 0x9F, 0x98, 0x80, 0x5E, 0x2B, 0x30, 0x36, 0x7D, 0] 11
               [formatter_int64 UTF8 after 42] 1 0 []
             = Some (Inr (11, 1, [0xF0, 0x9F, 0x98, 0x80, 0x2B, 0x34, 0x32,
                                  0xF0, 0x9F, 0x98, 0x80, 0xF0, 0x9F, 0x98, 0x80]))"
    using scan_spec_emoji_fill Specifier_emoji_fill int64_format_emoji_fill
    by (simp add: field_defs formatter_int64_def)
  have step: "format1_step UTF8
                [0x7B, 0x3A, 0xF0, 0x9F, 0x98, 0x80, 0x5E, 0x2B, 0x30, 0x36, 0x7D, 0] 11
                [formatter_int64 UTF8 after 42] (0, 0, 0, [])
              = Some (Inr (11, 11, 1, [0xF0, 0x9F, 0x98, 0x80, 0x2B, 0x34, 0x32,
                                       0xF0, 0x9F, 0x98, 0x80, 0xF0, 0x9F, 0x98, 0x80]))"
    using fld by (simp add: format1_step_def rd_def slice_def)
  show ?thesis
    using step
    by (simp add: format_def format1_def format1_loop.simps bindO_def slice_def)
qed

lemma length_cp_emoji_result:
  "length_cp UTF8 [0xF0, 0x9F, 0x98, 0x80, 0x2B, 0x34, 0x32, 0xF0, 0x9F, 0x98, 0x80,
                  0xF0, 0x9F, 0x98, 0x80] = Some (Inr 6)"
  by (simp add: length_cp_def iter_diff.simps iter_defs)

lemma string_literal_zero_before_space:
  "string_literal (\<lambda>c. if c = 0x30 then [0x20, 0] else [0]) 0x30 = Inr [0x30, 0x20]"
  by (simp add: string_literal_def)

text \<open>
  C6. Formatting the integer 42 with the template \<^verbatim>\<open>{:=+06}\<close> does not always produce
  \<^verbatim>\<open>+00042\<close>. The fill of the zero flag is the view built from
  \<^verbatim>\<open>string_literal<Char, '0'>()\<close>, a one-unit array without a terminator, whose length is
  taken by reading on behind the array. Where the unit of the literal \<^verbatim>\<open>' '\<close> and a zero
  unit follow the array, the fill is the two units \<^verbatim>\<open>0\<close> and space, and the result is
  \<^verbatim>\<open>+0 0 0 42\<close>: the sign, the fill token three times, the digits. The result is
  \<^verbatim>\<open>+00042\<close> exactly when a zero unit follows the array directly (lemma
  \<open>format_zero_pad_iff_terminated\<close>). The template with the emoji fill does produce the
  emoji, \<^verbatim>\<open>+42\<close> and the emoji twice, 6 codepoints in 15 bytes, whatever follows the
  literals (lemmas \<open>format_emoji_fill\<close>, \<open>length_cp_emoji_result\<close>).
\<close>

theorem format_zero_flag_fill_reads_past_literal:
  "string_literal (\<lambda>c. if c = 0x30 then [0x20, 0] else [0]) 0x30 = Inr [0x30, 0x20]
   \<and> format UTF8 (units ''{:=+06}'')
        [formatter_int64 UTF8 (\<lambda>c. if c = 0x30 then [0x20, 0] else [0]) 42]
       = Some (Inr (units ''+0 0 0 42''))"
  using string_literal_zero_before_space
        format_zero_pad_by_fill[OF string_literal_zero_before_space]
  by (simp add: units_def)

subsection \<open>Indexing styles of the format engine\<close>

text \<open>
  The position counter of \<^verbatim>\<open>format1\<close> is the largest \<^verbatim>\<open>size_t\<close> once a field with an
  explicit index has been processed, and a number from 1 up to the argument count once a field
  with an automatic index has been processed. Every pass of the loop, over literal text, an
  escaped brace or a further field, keeps the counter in its style, so the next field of the
  other style raises the switching error however far behind it stands.
\<close>

lemma field_index_cases:
  assumes "field_index mem n iter position = Inr (index, iter1, position')"
  shows "\<exists>c. rd mem iter = Inr c
           \<and> (if is_digit (to_char c) then (position = 0 \<or> position = npos) \<and> position' = npos
               else position \<noteq> npos \<and> index = position
                    \<and> position' = (position + 1) mod 2 ^ 64)"
proof (cases "rd mem iter")
  case (Inl e)
  with assms show ?thesis by (simp add: field_index_def bindE_def)
next
  case (Inr c)
  show ?thesis
  proof (cases "is_digit (to_char c)")
    case True
    with assms Inr have "(position = 0 \<or> position = npos) \<and> position' = npos"
      by (cases "index_digits mem n (iter + 1) ((c - 0x30) mod 2 ^ 64)")
         (auto simp: field_index_def bindE_def split: if_splits)
    with Inr True show ?thesis by simp
  next
    case False
    with assms Inr have "position \<noteq> npos \<and> index = position
                         \<and> position' = (position + 1) mod 2 ^ 64"
      by (auto simp: field_index_def bindE_def split: if_splits)
    with Inr False show ?thesis by simp
  qed
qed

lemma format_field_index:
  assumes "format_field E mem n fs iter position result = Some (Inr (iter', position', result'))"
  shows "\<exists>index iter1. field_index mem n iter position = Inr (index, iter1, position')
                        \<and> index < length fs"
proof (cases "field_index mem n iter position")
  case (Inl e)
  with assms show ?thesis by (simp add: format_field_def)
next
  case (Inr x)
  obtain index iter1 p where x: "x = (index, iter1, p)" by (cases x)
  show ?thesis
  proof (cases "index \<ge> length fs")
    case True
    with assms Inr x show ?thesis by (simp add: format_field_def)
  next
    case False
    with assms Inr x have "p = position'"
      by (auto simp: format_field_def bindO_def split: option.splits sum.splits)
    with Inr x False show ?thesis by simp
  qed
qed

lemma format_field_keeps_manual:
  assumes "format_field E mem n fs iter npos result = Some (Inr (iter', position', result'))"
  shows "position' = npos"
proof -
  from format_field_index[OF assms] obtain index iter1 where
    "field_index mem n iter npos = Inr (index, iter1, position')" by blast
  from field_index_cases[OF this] show ?thesis
    by (auto split: if_splits)
qed

lemma format_field_automatic:
  assumes "format_field E mem n fs iter position result = Some (Inr (iter', position', result'))"
    and "rd mem iter = Inr c" and "\<not> is_digit (to_char c)" and "length fs < npos"
  shows "position' \<noteq> 0 \<and> position' \<noteq> npos"
proof -
  from format_field_index[OF assms(1)] obtain index iter1 where
    fi: "field_index mem n iter position = Inr (index, iter1, position')"
    and ix: "index < length fs" by blast
  from field_index_cases[OF fi] assms(2,3)
  have "index = position" and p: "position' = (position + 1) mod 2 ^ 64" by auto
  with ix assms(4) have lt: "position + 1 < npos" by simp
  then have "position + 1 < 2 ^ 64" by (simp add: npos_def)
  with p have "position' = position + 1" by simp
  with lt show ?thesis by simp
qed

lemma format_field_manual:
  assumes "format_field E mem n fs iter position result = Some (Inr (iter', position', result'))"
    and "rd mem iter = Inr c" and "is_digit (to_char c)"
  shows "position' = npos"
proof -
  from format_field_index[OF assms(1)] obtain index iter1 where
    "field_index mem n iter position = Inr (index, iter1, position')" by blast
  from field_index_cases[OF this] assms(2,3) show ?thesis by auto
qed

lemma format_field_keeps_automatic:
  assumes "format_field E mem n fs iter position result = Some (Inr (iter', position', result'))"
    and "position \<noteq> 0" and "position \<noteq> npos" and "length fs < npos"
  shows "position' \<noteq> 0 \<and> position' \<noteq> npos"
proof -
  from format_field_index[OF assms(1)] obtain index iter1 where
    fi: "field_index mem n iter position = Inr (index, iter1, position')" by blast
  from field_index_cases[OF fi] assms(2,3) obtain c where
    "rd mem iter = Inr c" and "\<not> is_digit (to_char c)"
    by (auto split: if_splits)
  with format_field_automatic[OF assms(1) _ _ assms(4)] show ?thesis by blast
qed

lemma format1_step_cases:
  assumes "format1_step E mem n fs (iter, from, position, result)
           = Some (Inr (iter', from', position', result'))"
  shows "position' = position
         \<or> (\<exists>c. rd mem iter = Inr 0x7B \<and> rd mem (iter + 1) = Inr c \<and> c \<noteq> 0x7B
                \<and> format_field E mem n fs (iter + 1) position (result @ slice mem from iter)
                    = Some (Inr (iter', position', result')))"
  using assms
  by (auto simp: format1_step_def split: sum.splits if_splits option.splits prod.splits)

lemma format1_step_keeps_manual:
  assumes "format1_step E mem n fs (iter, from, npos, result)
           = Some (Inr (iter', from', position', result'))"
  shows "position' = npos"
  using format1_step_cases[OF assms] format_field_keeps_manual by blast

lemma format1_step_keeps_automatic:
  assumes "format1_step E mem n fs (iter, from, position, result)
           = Some (Inr (iter', from', position', result'))"
    and "position \<noteq> 0" and "position \<noteq> npos" and "length fs < npos"
  shows "position' \<noteq> 0 \<and> position' \<noteq> npos"
  using format1_step_cases[OF assms(1)] format_field_keeps_automatic assms(2-4) by blast

lemma format1_passes_keeps_manual:
  assumes "format1_passes k E mem n fs (iter, from, npos, result)
           = Some (iter', from', position', result')"
  shows "position' = npos"
  using assms
proof (induction k arbitrary: iter "from" result)
  case 0
  then show ?case by simp
next
  case (Suc k)
  from Suc.prems obtain st where
    st: "format1_step E mem n fs (iter, from, npos, result) = Some (Inr st)"
    and rest: "format1_passes k E mem n fs st = Some (iter', from', position', result')"
    by (auto split: if_splits option.splits sum.splits)
  obtain i f p r where [simp]: "st = (i, f, p, r)" by (cases st)
  from st have "p = npos" by (auto dest: format1_step_keeps_manual)
  with rest Suc.IH show ?case by simp
qed

lemma format1_passes_keeps_automatic:
  assumes "format1_passes k E mem n fs (iter, from, position, result)
           = Some (iter', from', position', result')"
    and "position \<noteq> 0" and "position \<noteq> npos" and "length fs < npos"
  shows "position' \<noteq> 0 \<and> position' \<noteq> npos"
  using assms(1-3)
proof (induction k arbitrary: iter "from" position result)
  case 0
  then show ?case by simp
next
  case (Suc k)
  from Suc.prems(1) obtain st where
    st: "format1_step E mem n fs (iter, from, position, result) = Some (Inr st)"
    and rest: "format1_passes k E mem n fs st = Some (iter', from', position', result')"
    by (auto split: if_splits option.splits sum.splits)
  obtain i f p r where [simp]: "st = (i, f, p, r)" by (cases st)
  from st Suc.prems(2,3) assms(4) have "p \<noteq> 0 \<and> p \<noteq> npos"
    by (auto dest: format1_step_keeps_automatic)
  with rest Suc.IH show ?case by simp
qed

lemma format1_passes_loop:
  assumes "format1_passes k E mem n fs st = Some st'"
  shows "format1_loop E mem n fs st = format1_loop E mem n fs st'"
  using assms
proof (induction k arbitrary: st)
  case 0
  then show ?case by simp
next
  case (Suc k)
  from Suc.prems obtain st1 where
    lt: "fst st < n"
    and st: "format1_step E mem n fs st = Some (Inr st1)"
    and rest: "format1_passes k E mem n fs st1 = Some st'"
    by (auto split: if_splits option.splits sum.splits)
  from lt st have "format1_loop E mem n fs st = format1_loop E mem n fs st1"
    by (subst format1_loop.simps) simp
  with Suc.IH[OF rest] show ?case by simp
qed

lemma at_field_step:
  assumes "at_field mem n (iter, from, position, result) manual"
    and "format1_step E mem n fs (iter, from, position, result)
         = Some (Inr (iter', from', position', result'))"
  shows "\<exists>c. rd mem (iter + 1) = Inr c \<and> is_digit (to_char c) = manual
             \<and> format_field E mem n fs (iter + 1) position (result @ slice mem from iter)
                 = Some (Inr (iter', position', result'))"
  using assms
  by (auto simp: at_field_def format1_step_def
           split: sum.splits if_splits option.splits prod.splits)

lemma format1_loop_rejects_automatic:
  assumes "at_field mem n (iter, from, npos, result) False"
  shows "format1_loop E mem n fs (iter, from, npos, result) = Some (Inl manual_to_automatic)"
proof -
  from assms obtain c where lt: "iter < n" and b: "rd mem iter = Inr 0x7B"
    and c: "rd mem (iter + 1) = Inr c" "c \<noteq> 0x7B" "\<not> is_digit (to_char c)"
    by (auto simp: at_field_def split: sum.splits)
  from c have "field_index mem n (iter + 1) npos = Inl manual_to_automatic"
    by (simp add: field_index_def bindE_def)
  then have "format_field E mem n fs (iter + 1) npos r = Some (Inl manual_to_automatic)" for r
    by (simp add: format_field_def)
  with b c have "format1_step E mem n fs (iter, from, npos, result)
                 = Some (Inl manual_to_automatic)"
    by (simp add: format1_step_def)
  with lt show ?thesis
    by (subst format1_loop.simps) simp
qed

lemma format1_loop_rejects_manual:
  assumes "at_field mem n (iter, from, position, result) True"
    and "position \<noteq> 0" and "position \<noteq> npos"
  shows "format1_loop E mem n fs (iter, from, position, result) = Some (Inl automatic_to_manual)"
proof -
  from assms(1) obtain c where lt: "iter < n" and b: "rd mem iter = Inr 0x7B"
    and c: "rd mem (iter + 1) = Inr c" "c \<noteq> 0x7B" "is_digit (to_char c)"
    by (auto simp: at_field_def split: sum.splits)
  from c assms(2,3) have "field_index mem n (iter + 1) position = Inl automatic_to_manual"
    by (simp add: field_index_def bindE_def)
  then have "format_field E mem n fs (iter + 1) position r = Some (Inl automatic_to_manual)" for r
    by (simp add: format_field_def)
  with b c have "format1_step E mem n fs (iter, from, position, result)
                 = Some (Inl automatic_to_manual)"
    by (simp add: format1_step_def)
  with lt show ?thesis
    by (subst format1_loop.simps) simp
qed

lemma manual_then_automatic_fails:
  assumes "format1_passes k1 E mem n fs s0 = Some s1"
    and "at_field mem n s1 True"
    and "format1_step E mem n fs s1 = Some (Inr s2)"
    and "format1_passes k2 E mem n fs s2 = Some s3"
    and "at_field mem n s3 False"
  shows "format1_loop E mem n fs s0 = Some (Inl manual_to_automatic)"
proof -
  obtain i1 f1 p1 r1 where s1: "s1 = (i1, f1, p1, r1)" by (cases s1)
  obtain i2 f2 p2 r2 where s2: "s2 = (i2, f2, p2, r2)" by (cases s2)
  obtain i3 f3 p3 r3 where s3: "s3 = (i3, f3, p3, r3)" by (cases s3)
  from at_field_step[OF assms(2)[unfolded s1] assms(3)[unfolded s1 s2]]
  have "p2 = npos" by (auto dest: format_field_manual)
  with assms(4) s2 s3 have "p3 = npos"
    by (auto dest: format1_passes_keeps_manual)
  with assms(5) s3 have "format1_loop E mem n fs s3 = Some (Inl manual_to_automatic)"
    by (simp add: format1_loop_rejects_automatic)
  moreover have "fst s1 < n"
    using assms(2) by (simp add: at_field_def)
  then have "format1_loop E mem n fs s1 = format1_loop E mem n fs s2"
    using assms(3) by (subst format1_loop.simps) simp
  ultimately show ?thesis
    using format1_passes_loop[OF assms(1)] format1_passes_loop[OF assms(4)] by simp
qed

lemma automatic_then_manual_fails:
  assumes "format1_passes k1 E mem n fs s0 = Some s1"
    and "at_field mem n s1 False"
    and "format1_step E mem n fs s1 = Some (Inr s2)"
    and "format1_passes k2 E mem n fs s2 = Some s3"
    and "at_field mem n s3 True"
    and "length fs < npos"
  shows "format1_loop E mem n fs s0 = Some (Inl automatic_to_manual)"
proof -
  obtain i1 f1 p1 r1 where s1: "s1 = (i1, f1, p1, r1)" by (cases s1)
  obtain i2 f2 p2 r2 where s2: "s2 = (i2, f2, p2, r2)" by (cases s2)
  obtain i3 f3 p3 r3 where s3: "s3 = (i3, f3, p3, r3)" by (cases s3)
  from at_field_step[OF assms(2)[unfolded s1] assms(3)[unfolded s1 s2]] assms(6)
  have "p2 \<noteq> 0 \<and> p2 \<noteq> npos" by (auto dest: format_field_automatic)
  with assms(4,6) s2 s3 have "p3 \<noteq> 0 \<and> p3 \<noteq> npos"
    by (auto dest: format1_passes_keeps_automatic)
  with assms(5) s3 have "format1_loop E mem n fs s3 = Some (Inl automatic_to_manual)"
    by (simp add: format1_loop_rejects_manual)
  moreover have "fst s1 < n"
    using assms(2) by (simp add: at_field_def)
  then have "format1_loop E mem n fs s1 = format1_loop E mem n fs s2"
    using assms(3) by (subst format1_loop.simps) simp
  ultimately show ?thesis
    using format1_passes_loop[OF assms(1)] format1_passes_loop[OF assms(4)] by simp
qed

lemma formatter_int64_plain:
  "formatter_int64 UTF8 after 42 0 mem 0 0 = Some (Inr [0x34, 0x32])"
  by (simp add: formatter_int64_def spec_defs iter_defs int64_format_def npos_def
        magnitude_def digit_char_def)

lemma format_init_loop:
  "format E self fs =
     bindO (format1_loop E (self @ [0]) (int (length self)) fs (0, 0, 0, []))
       (\<lambda>r. Some (Inr (fst r)))"
  by (simp add: format_def format1_def)

lemma manual_field_step:
  assumes "fs \<noteq> []" and "(fs ! 0) 0 [0x7B, 0x30, 0x7D, 0x7B, 0x7D, 0] 0 0 = Some (Inr out)"
  shows "format1_step E [0x7B, 0x30, 0x7D, 0x7B, 0x7D, 0] 5 fs (0, 0, 0, [])
         = Some (Inr (3, 3, npos, out))"
proof -
  have idx: "index_digits [0x7B, 0x30, 0x7D, 0x7B, 0x7D, 0] 5 1 0 = Inr (2, 0)"
    by (simp add: rd_def bindE_def is_digit_def to_char_def)
  have fld: "format_field E [0x7B, 0x30, 0x7D, 0x7B, 0x7D, 0] 5 fs 1 0 []
             = Some (Inr (3, npos, out))"
    using assms idx by (simp add: field_defs)
  show ?thesis
    using fld by (simp add: format1_step_def rd_def slice_def)
qed

lemma manual_then_automatic_adjacent:
  assumes "fs \<noteq> []" and "(fs ! 0) 0 (units ''{0}{}'' @ [0]) 0 0 = Some (Inr out)"
  shows "format E (units ''{0}{}'') fs = Some (Inl manual_to_automatic)"
proof -
  have out: "(fs ! 0) 0 [0x7B, 0x30, 0x7D, 0x7B, 0x7D, 0] 0 0 = Some (Inr out)"
    using assms(2) by (simp add: units_def)
  have "format1_loop E [0x7B, 0x30, 0x7D, 0x7B, 0x7D, 0] 5 fs (0, 0, 0, [])
        = Some (Inl manual_to_automatic)"
  proof (rule manual_then_automatic_fails
      [where ?k1.0 = 0 and ?k2.0 = 0 and ?s1.0 = "(0, 0, 0, [])"
         and ?s2.0 = "(3, 3, npos, out)" and ?s3.0 = "(3, 3, npos, out)"])
    show "format1_passes 0 E [0x7B, 0x30, 0x7D, 0x7B, 0x7D, 0] 5 fs (0, 0, 0, [])
          = Some (0, 0, 0, [])"
      by simp
    show "at_field [0x7B, 0x30, 0x7D, 0x7B, 0x7D, 0] 5 (0, 0, 0, []) True"
      by (simp add: at_field_def rd_def is_digit_def to_char_def)
    show "format1_step E [0x7B, 0x30, 0x7D, 0x7B, 0x7D, 0] 5 fs (0, 0, 0, [])
          = Some (Inr (3, 3, npos, out))"
      by (rule manual_field_step[OF assms(1) out])
    show "format1_passes 0 E [0x7B, 0x30, 0x7D, 0x7B, 0x7D, 0] 5 fs (3, 3, npos, out)
          = Some (3, 3, npos, out)"
      by simp
    show "at_field [0x7B, 0x30, 0x7D, 0x7B, 0x7D, 0] 5 (3, 3, npos, out) False"
      by (simp add: at_field_def rd_def is_digit_def to_char_def)
  qed
  thus ?thesis
    by (simp add: format_init_loop units_def bindO_def)
qed

text \<open>
  C7, as stated: the template \<^verbatim>\<open>{0}{}\<close> fails with an indexing error for any arguments.
  With no arguments the scan never reaches the second field: the first field fails the check
  of its index against the argument count, with the range error.
\<close>

theorem format_no_arguments_range_error:
  "format UTF8 (units ''{0}{}'') []
   = Some (Inl (out_of_range ''format(): Argument index out of range''))"
  by (simp add: format_def format1_def format1_loop.simps format1_step_def units_def
        field_defs slice_def)

text \<open>
  C7. Automatic and manual field indexing exclude each other over a whole template. Let the
  scan of \<open>format\<close>, started at the beginning of the template, reach after \<open>k1\<close> passes of its
  loop a field with an explicit index, process that field, and after \<open>k2\<close> further passes
  (over literal text, escaped braces or further fields) reach a field with an automatic
  index: then \<open>format\<close> raises the manual-to-automatic error. In the other order it raises the
  automatic-to-manual error, provided there are fewer arguments than the largest
  \<open>size_t\<close>. In particular \<^verbatim>\<open>{0}{}\<close> raises the manual-to-automatic error for every non-empty
  argument list whose argument 0 renders; with no arguments it raises the range error of the
  first field instead.
\<close>

theorem format_index_styles_exclusive:
  "(format1_passes k1 E (self @ [0]) (int (length self)) fs (0, 0, 0, []) = Some s1
      \<and> at_field (self @ [0]) (int (length self)) s1 True
      \<and> format1_step E (self @ [0]) (int (length self)) fs s1 = Some (Inr s2)
      \<and> format1_passes k2 E (self @ [0]) (int (length self)) fs s2 = Some s3
      \<and> at_field (self @ [0]) (int (length self)) s3 False
    \<longrightarrow> format E self fs = Some (Inl manual_to_automatic))
   \<and> (length fs < npos
      \<and> format1_passes k1 E (self @ [0]) (int (length self)) fs (0, 0, 0, []) = Some s1
      \<and> at_field (self @ [0]) (int (length self)) s1 False
      \<and> format1_step E (self @ [0]) (int (length self)) fs s1 = Some (Inr s2)
      \<and> format1_passes k2 E (self @ [0]) (int (length self)) fs s2 = Some s3
      \<and> at_field (self @ [0]) (int (length self)) s3 True
    \<longrightarrow> format E self fs = Some (Inl automatic_to_manual))
   \<and> (fs \<noteq> [] \<and> (fs ! 0) 0 (units ''{0}{}'' @ [0]) 0 0 = Some (Inr out)
    \<longrightarrow> format E (units ''{0}{}'') fs = Some (Inl manual_to_automatic))"
proof (intro conjI impI)
  assume h: "format1_passes k1 E (self @ [0]) (int (length self)) fs (0, 0, 0, []) = Some s1
      \<and> at_field (self @ [0]) (int (length self)) s1 True
      \<and> format1_step E (self @ [0]) (int (length self)) fs s1 = Some (Inr s2)
      \<and> format1_passes k2 E (self @ [0]) (int (length self)) fs s2 = Some s3
      \<and> at_field (self @ [0]) (int (length self)) s3 False"
  have "format1_loop E (self @ [0]) (int (length self)) fs (0, 0, 0, [])
        = Some (Inl manual_to_automatic)"
    using h manual_then_automatic_fails[of k1 E "self @ [0]" "int (length self)" fs
              "(0, 0, 0, [])" s1 s2 k2 s3]
    by blast
  thus "format E self fs = Some (Inl manual_to_automatic)"
    by (simp add: format_init_loop bindO_def)
next
  assume h: "length fs < npos
      \<and> format1_passes k1 E (self @ [0]) (int (length self)) fs (0, 0, 0, []) = Some s1
      \<and> at_field (self @ [0]) (int (length self)) s1 False
      \<and> format1_step E (self @ [0]) (int (length self)) fs s1 = Some (Inr s2)
      \<and> format1_passes k2 E (self @ [0]) (int (length self)) fs s2 = Some s3
      \<and> at_field (self @ [0]) (int (length self)) s3 True"
  have "format1_loop E (self @ [0]) (int (length self)) fs (0, 0, 0, [])
        = Some (Inl automatic_to_manual)"
    using h automatic_then_manual_fails[of k1 E "self @ [0]" "int (length self)" fs
              "(0, 0, 0, [])" s1 s2 k2 s3]
    by blast
  thus "format E self fs = Some (Inl automatic_to_manual)"
    by (simp add: format_init_loop bindO_def)
next
  assume "fs \<noteq> [] \<and> (fs ! 0) 0 (units ''{0}{}'' @ [0]) 0 0 = Some (Inr out)"
  thus "format E (units ''{0}{}'') fs = Some (Inl manual_to_automatic)"
    using manual_then_automatic_adjacent by blast
qed

theorem format_index_styles_exclusive_witness:
  "format1_step UTF8 (units ''{0}x{}'' @ [0]) 6 [formatter_int64 UTF8 (\<lambda>c. [0]) 42]
     (0, 0, 0, []) = Some (Inr (3, 3, npos, units ''42''))
   \<and> format1_passes (Suc 0) UTF8 (units ''{0}x{}'' @ [0]) 6 [formatter_int64 UTF8 (\<lambda>c. [0]) 42]
       (3, 3, npos, units ''42'') = Some (4, 3, npos, units ''42'')
   \<and> format UTF8 (units ''{0}x{}'') [formatter_int64 UTF8 (\<lambda>c. [0]) 42]
       = Some (Inl manual_to_automatic)
   \<and> format1_step UTF8 (units ''{}x{0}'' @ [0]) 6 [formatter_int64 UTF8 (\<lambda>c. [0]) 42]
       (0, 0, 0, []) = Some (Inr (2, 2, 1, units ''42''))
   \<and> format1_passes (Suc 0) UTF8 (units ''{}x{0}'' @ [0]) 6 [formatter_int64 UTF8 (\<lambda>c. [0]) 42]
       (2, 2, 1, units ''42'') = Some (3, 2, 1, units ''42'')
   \<and> format UTF8 (units ''{}x{0}'') [formatter_int64 UTF8 (\<lambda>c. [0]) 42]
       = Some (Inl automatic_to_manual)
   \<and> format UTF8 (units ''{0}{}'') [formatter_int64 UTF8 (\<lambda>c. [0]) 42]
       = Some (Inl manual_to_automatic)"
proof -
  let ?fs = "[formatter_int64 UTF8 (\<lambda>c. [0]) 42]"
  let ?m = "[0x7B, 0x30, 0x7D, 0x78, 0x7B, 0x7D, 0] :: buffer"
  let ?a = "[0x7B, 0x7D, 0x78, 0x7B, 0x30, 0x7D, 0] :: buffer"
  have idx: "index_digits ?m 6 1 0 = Inr (2, 0)" "index_digits ?a 6 4 0 = Inr (5, 0)"
    by (simp_all add: rd_def bindE_def is_digit_def to_char_def)
  have m1: "at_field ?m 6 (0, 0, 0, []) True"
    by (simp add: at_field_def rd_def is_digit_def to_char_def)
  have m2: "format1_step UTF8 ?m 6 ?fs (0, 0, 0, []) = Some (Inr (3, 3, npos, [0x34, 0x32]))"
    using idx(1) formatter_int64_plain[of "\<lambda>c. [0]" ?m]
    by (simp add: format1_step_def field_defs slice_def)
  have m3: "format1_passes (Suc 0) UTF8 ?m 6 ?fs (3, 3, npos, [0x34, 0x32])
            = Some (4, 3, npos, [0x34, 0x32])"
    by (simp add: format1_step_def iter_defs)
  have m4: "at_field ?m 6 (4, 3, npos, [0x34, 0x32]) False"
    by (simp add: at_field_def rd_def is_digit_def to_char_def)
  have a1: "at_field ?a 6 (0, 0, 0, []) False"
    by (simp add: at_field_def rd_def is_digit_def to_char_def)
  have a2: "format1_step UTF8 ?a 6 ?fs (0, 0, 0, []) = Some (Inr (2, 2, 1, [0x34, 0x32]))"
    using formatter_int64_plain[of "\<lambda>c. [0]" ?a]
    by (simp add: format1_step_def field_defs slice_def)
  have a3: "format1_passes (Suc 0) UTF8 ?a 6 ?fs (2, 2, 1, [0x34, 0x32])
            = Some (3, 2, 1, [0x34, 0x32])"
    by (simp add: format1_step_def iter_defs)
  have a4: "at_field ?a 6 (3, 2, 1, [0x34, 0x32]) True"
    by (simp add: at_field_def rd_def is_digit_def to_char_def)
  have small: "length ?fs < npos"
    by (simp add: npos_def)
  have out: "(?fs ! 0) 0 (units ''{0}{}'' @ [0]) 0 0 = Some (Inr [0x34, 0x32])"
    using formatter_int64_plain[of "\<lambda>c. [0]" "units ''{0}{}'' @ [0]"] by simp
  have "format UTF8 [0x7B, 0x30, 0x7D, 0x78, 0x7B, 0x7D] ?fs = Some (Inl manual_to_automatic)"
    using format_index_styles_exclusive
      [where ?k1.0 = 0 and E = UTF8 and self = "[0x7B, 0x30, 0x7D, 0x78, 0x7B, 0x7D]"
         and fs = ?fs and ?s1.0 = "(0, 0, 0, [])" and ?s2.0 = "(3, 3, npos, [0x34, 0x32])"
         and ?k2.0 = "Suc 0" and ?s3.0 = "(4, 3, npos, [0x34, 0x32])"]
      m1 m2 m3 m4
    by simp
  moreover
  have "format UTF8 [0x7B, 0x7D, 0x78, 0x7B, 0x30, 0x7D] ?fs = Some (Inl automatic_to_manual)"
    using format_index_styles_exclusive
      [where ?k1.0 = 0 and E = UTF8 and self = "[0x7B, 0x7D, 0x78, 0x7B, 0x30, 0x7D]"
         and fs = ?fs and ?s1.0 = "(0, 0, 0, [])" and ?s2.0 = "(2, 2, 1, [0x34, 0x32])"
         and ?k2.0 = "Suc 0" and ?s3.0 = "(3, 2, 1, [0x34, 0x32])"]
      a1 a2 a3 a4 small
    by simp
  moreover
  have "format UTF8 (units ''{0}{}'') ?fs = Some (Inl manual_to_automatic)"
    using format_index_styles_exclusive
      [where E = UTF8 and fs = ?fs and out = "[0x34, 0x32]"]
      out
    by simp
  ultimately show ?thesis
    using m2 m3 a2 a3 by (simp add: units_def)
qed

subsection \<open>Braces at the end of the template\<close>

text \<open>
  An opening or closing brace that is the last unit of the template is followed by the
  terminator of the string: the field, or the escape, is reported as unterminated.
\<close>

lemma format_open_brace_at_end:
  "format UTF8 (units ''ab{'') [formatter_int64 UTF8 after 42]
   = Some (Inl (invalid_argument ''format(): format - Unterminated format sequence''))"
  by (simp add: format_def format1_def format1_loop.simps format1_step_def units_def
        field_defs iter_defs slice_def)

lemma format_close_brace_at_end:
  "format UTF8 (units ''ab}'') fs
   = Some (Inl (invalid_argument ''format(): format - Single '}' in format string''))"
  by (simp add: format_def format1_def format1_loop.simps format1_step_def units_def
        iter_defs bindO_def slice_def)

lemma format_unterminated_specification:
  "format UTF8 (units ''{:'') [formatter_int64 UTF8 after 42]
   = Some (Inl (invalid_argument ''format(): format - Unterminated format sequence''))"
  by (simp add: format_def format1_def format1_loop.simps format1_step_def units_def
        field_defs iter_defs slice_def scan_spec.simps)

text \<open>An opening brace at the end counts as a field with an automatic index.\<close>

lemma format_manual_index_then_open_brace_at_end:
  "format UTF8 (units ''{0}{'') [formatter_int64 UTF8 after 42]
   = Some (Inl manual_to_automatic)"
proof -
  have idx: "index_digits [0x7B, 0x30, 0x7D, 0x7B, 0] 4 1 0 = Inr (2, 0)"
    by (simp add: rd_def bindE_def is_digit_def to_char_def)
  have step: "format1_step UTF8 [0x7B, 0x30, 0x7D, 0x7B, 0] 4 [formatter_int64 UTF8 after 42]
                (0, 0, 0, []) = Some (Inr (3, 3, npos, [0x34, 0x32]))"
    using idx formatter_int64_plain[of after "[0x7B, 0x30, 0x7D, 0x7B, 0]"]
    by (simp add: format1_step_def field_defs slice_def)
  have "format1_loop UTF8 [0x7B, 0x30, 0x7D, 0x7B, 0] 4 [formatter_int64 UTF8 after 42]
          (3, 3, npos, [0x34, 0x32]) = Some (Inl manual_to_automatic)"
    by (rule format1_loop_rejects_automatic)
       (simp_all add: at_field_def rd_def is_digit_def to_char_def)
  thus ?thesis
    using step
    by (simp add: format_def format1_def format1_loop.simps[of _ _ _ _ "(0, 0, 0, [])"]
          units_def bindO_def)
qed
end
